theory Spec2Isabelle
  imports Complex_Main "HOL-Library.AList" "HOL-Library.Multiset"
begin

section \<open>Text\<close>

text \<open>
  A Python \<open>str\<close> is a sequence of Unicode code points, so text is a list of natural
  numbers (a HOL \<open>char\<close> is a byte and could not hold U+20AC or the digits beyond
  ASCII that \<open>\d\<close> accepts). \<open>ascii\<close> writes an ASCII literal of the source.
\<close>

type_synonym ustr = "nat list"

definition ascii :: "string \<Rightarrow> ustr" where
  "ascii s = map of_char s"

text \<open>
  \<open>str.isspace\<close>, which is also what \<open>\s\<close> matches in a \<open>str\<close> pattern and what
  \<open>str.strip()\<close> and \<open>str.split()\<close> remove: U+0009..U+000D, U+001C..U+0020, U+0085,
  U+00A0, U+1680, U+2000..U+200A, U+2028, U+2029, U+202F, U+205F, U+3000.
\<close>

definition is_space :: "nat \<Rightarrow> bool" where
  "is_space c \<longleftrightarrow>
     (9 \<le> c \<and> c \<le> 13) \<or> (28 \<le> c \<and> c \<le> 32) \<or> c = 133 \<or> c = 160 \<or> c = 5760
     \<or> (8192 \<le> c \<and> c \<le> 8202) \<or> c = 8232 \<or> c = 8233 \<or> c = 8239 \<or> c = 8287
     \<or> c = 12288"

text \<open>
  The decimal digits of Unicode (category Nd, Unicode 14 as in CPython 3.11): runs of ten
  code points for the values 0 to 9, each run given by its first code point. \<open>\d\<close>
  matches exactly these, and \<open>int()\<close> and \<open>float()\<close> read them with their value.
\<close>

definition nd_starts :: "nat list" where
  "nd_starts = [48, 1632, 1776, 1984, 2406, 2534, 2662, 2790, 2918, 3046, 3174, 3302,
     3430, 3558, 3664, 3792, 3872, 4160, 4240, 6112, 6160, 6470, 6608, 6784, 6800, 6992,
     7088, 7232, 7248, 42528, 43216, 43264, 43472, 43504, 43600, 44016, 65296, 66720,
     68912, 69734, 69872, 69942, 70096, 70384, 70736, 70864, 71248, 71360, 71472, 71904,
     72016, 72784, 73040, 73120, 92768, 92864, 93008, 120782, 120792, 120802, 120812,
     120822, 123200, 123632, 125264, 130032]"

definition digit_value :: "nat \<Rightarrow> nat option" where
  "digit_value c =
     (case find (\<lambda>s. s \<le> c \<and> c < s + 10) nd_starts of
        None \<Rightarrow> None
      | Some s \<Rightarrow> Some (c - s))"

definition is_digit :: "nat \<Rightarrow> bool" where
  "is_digit c \<longleftrightarrow> digit_value c \<noteq> None"

text \<open>
  \<open>re.search\<close>: the pattern is tried at every position from the left, the end of the
  text included, and the first position where it matches wins. \<open>m s\<close> is the text
  matched (group 0) when the pattern matches at the start of \<open>s\<close>.
\<close>

fun re_search :: "(ustr \<Rightarrow> ustr option) \<Rightarrow> ustr \<Rightarrow> ustr option" where
  "re_search m [] = m []"
| "re_search m (c # cs) =
     (case m (c # cs) of
        Some g \<Rightarrow> Some g
      | None \<Rightarrow> re_search m cs)"

text \<open>\<open>str.replace(old, "")\<close> for a one-character \<open>old\<close>, and \<open>str.strip()\<close>.\<close>

definition remove_char :: "nat \<Rightarrow> ustr \<Rightarrow> ustr" where
  "remove_char c s = filter (\<lambda>x. x \<noteq> c) s"

definition strip :: "ustr \<Rightarrow> ustr" where
  "strip s = rev (dropWhile is_space (rev (dropWhile is_space s)))"

section \<open>Field normalizer (html_cleaner.py)\<close>

text \<open>
  \<open>_WHITESPACE_RE.sub(" ", text)\<close> with the pattern \<open>\s+\<close>: every maximal run of
  whitespace becomes one U+0020.
\<close>

function sub_whitespace :: "ustr \<Rightarrow> ustr" where
  "sub_whitespace [] = []"
| "sub_whitespace (c # cs) =
     (if is_space c then 32 # sub_whitespace (dropWhile is_space cs)
      else c # sub_whitespace cs)"
  by pat_completeness auto
termination
  by (relation "measure length") (auto simp: le_imp_less_Suc length_dropWhile_le)

text \<open>\<open>clean_text\<close>; the argument is \<open>None\<close> or a \<open>str\<close>.\<close>

definition clean_text :: "ustr option \<Rightarrow> ustr" where
  "clean_text v =
     (case v of
        None \<Rightarrow> []
      | Some text \<Rightarrow> strip (sub_whitespace text))"

text \<open>
  \<open>_INT_RE = (-?\d[\d\s]*)\<close> at the start of a text. With a leading \<open>-\<close> the digit
  must follow at once; giving the \<open>-\<close> back cannot help, since \<open>-\<close> is no digit. The
  star is greedy and nothing follows it, so it takes the whole run.
\<close>

definition digit_or_space :: "nat \<Rightarrow> bool" where
  "digit_or_space c \<longleftrightarrow> is_digit c \<or> is_space c"

fun int_re_at :: "ustr \<Rightarrow> ustr option" where
  "int_re_at [] = None"
| "int_re_at (c # cs) =
     (if c = 45 then
        (case cs of
           [] \<Rightarrow> None
         | d # ds \<Rightarrow> if is_digit d then Some (c # d # takeWhile digit_or_space ds) else None)
      else if is_digit c then Some (c # takeWhile digit_or_space cs)
      else None)"

text \<open>
  \<open>int(num)\<close> in base ten. CPython first maps every whitespace character beyond ASCII
  to U+0020 and every decimal digit to its ASCII digit, then strips the ASCII
  whitespace U+0009..U+000D and U+0020 (U+001C..U+001F stay and make the text
  invalid), reads a sign and then digits, where single underscores may stand between
  digits. A text of more than 4300 digits is refused (the interpreter's default
  limit for the conversion). Every refusal is a \<open>ValueError\<close>, here \<open>None\<close>.
\<close>

definition to_ascii_decimal :: "nat \<Rightarrow> nat" where
  "to_ascii_decimal c =
     (if c < 128 then c
      else if is_space c then 32
      else (case digit_value c of Some d \<Rightarrow> 48 + d | None \<Rightarrow> c))"

definition ascii_space :: "nat \<Rightarrow> bool" where
  "ascii_space c \<longleftrightarrow> (9 \<le> c \<and> c \<le> 13) \<or> c = 32"

definition ascii_digit :: "nat \<Rightarrow> bool" where
  "ascii_digit c \<longleftrightarrow> 48 \<le> c \<and> c \<le> 57"

fun digits_ok :: "ustr \<Rightarrow> bool" where
  "digits_ok [] = False"
| "digits_ok [c] = ascii_digit c"
| "digits_ok (c # d # ds) =
     (ascii_digit c \<and> (if d = 95 then digits_ok ds else digits_ok (d # ds)))"

definition max_str_digits :: nat where
  "max_str_digits = 4300"

definition digits_to_int :: "ustr \<Rightarrow> int" where
  "digits_to_int ds = foldl (\<lambda>acc c. 10 * acc + int (c - 48)) 0 (filter ascii_digit ds)"

definition py_int :: "ustr \<Rightarrow> int option" where
  "py_int s =
     (let t = map to_ascii_decimal s;
          u = rev (dropWhile ascii_space (rev (dropWhile ascii_space t)));
          neg = (case u of [] \<Rightarrow> False | c # _ \<Rightarrow> c = 45);
          body = (case u of [] \<Rightarrow> [] | c # cs \<Rightarrow> if c = 45 \<or> c = 43 then cs else u)
      in if digits_ok body \<and> length (filter ascii_digit body) \<le> max_str_digits
         then Some (if neg then - digits_to_int body else digits_to_int body)
         else None)"

text \<open>\<open>extract_int\<close>; \<open>not value\<close> holds for \<open>None\<close> and for the empty text.\<close>

definition extract_int :: "ustr option \<Rightarrow> int option" where
  "extract_int v =
     (case v of
        None \<Rightarrow> None
      | Some value \<Rightarrow>
          if value = [] then None
          else (case re_search int_re_at value of
                  None \<Rightarrow> None
                | Some g \<Rightarrow> py_int (remove_char 160 (remove_char 32 g))))"

text \<open>
  \<open>_FLOAT_RE = (-?\d+(?:[.,]\d+)?)\<close> at the start of a text: the digits are taken
  greedily, and the fraction is taken when a dot or comma with a digit after it follows.
\<close>

definition float_re_unsigned :: "ustr \<Rightarrow> ustr option" where
  "float_re_unsigned s =
     (let ip = takeWhile is_digit s; r = dropWhile is_digit s
      in if ip = [] then None
         else (case r of
                 [] \<Rightarrow> Some ip
               | p # q \<Rightarrow>
                   if (p = 46 \<or> p = 44) \<and> takeWhile is_digit q \<noteq> []
                   then Some (ip @ p # takeWhile is_digit q)
                   else Some ip))"

fun float_re_at :: "ustr \<Rightarrow> ustr option" where
  "float_re_at [] = None"
| "float_re_at (c # cs) =
     (if c = 45 then
        (case float_re_unsigned cs of
           None \<Rightarrow> None
         | Some g \<Rightarrow> Some (c # g))
      else float_re_unsigned (c # cs))"

text \<open>
  \<open>float(num)\<close> for the text of a match of \<open>_FLOAT_RE\<close> after its comma became a dot:
  a sign, digits and perhaps a dot with digits (the exponents, \<open>inf\<close> and \<open>nan\<close> that
  \<open>float()\<close> also reads cannot come out of that pattern, and are \<open>None\<close> here). The
  result is the rational number the literal denotes; Python rounds it to the nearest
  binary64 value, which changes nothing for a number like 12.5.
\<close>

definition digits_value :: "ustr \<Rightarrow> nat" where
  "digits_value ds = foldl (\<lambda>acc c. 10 * acc + the (digit_value c)) 0 ds"

definition py_float :: "ustr \<Rightarrow> rat option" where
  "py_float s =
     (let neg = (case s of [] \<Rightarrow> False | c # _ \<Rightarrow> c = 45);
          body = (case s of [] \<Rightarrow> [] | c # cs \<Rightarrow> if c = 45 then cs else s);
          ip = takeWhile is_digit body;
          r = dropWhile is_digit body;
          fp = (case r of [] \<Rightarrow> [] | _ # q \<Rightarrow> q);
          ok = (ip \<noteq> [] \<and> (r = [] \<or> (hd r = 46 \<and> fp \<noteq> [] \<and> list_all is_digit fp)));
          v = of_nat (digits_value ip) + of_nat (digits_value fp) / 10 ^ length fp
      in if ok then Some (if neg then - v else v) else None)"

definition replace_char :: "nat \<Rightarrow> nat \<Rightarrow> ustr \<Rightarrow> ustr" where
  "replace_char a b s = map (\<lambda>x. if x = a then b else x) s"

definition extract_float :: "ustr option \<Rightarrow> rat option" where
  "extract_float v =
     (case v of
        None \<Rightarrow> None
      | Some value \<Rightarrow>
          if value = [] then None
          else (case re_search float_re_at value of
                  None \<Rightarrow> None
                | Some g \<Rightarrow>
                    py_float (replace_char 44 46 (remove_char 160 (remove_char 32 g)))))"

text \<open>Whether a text holds a character that \<open>\d\<close> matches.\<close>

definition has_digit :: "ustr \<Rightarrow> bool" where
  "has_digit s = list_ex is_digit s"

text \<open>
  What \<open>clean_text\<close> returns, said on its own: every whitespace character is a U+0020
  and is followed by a character that is no whitespace, or by the end.
\<close>

fun single_spaced :: "ustr \<Rightarrow> bool" where
  "single_spaced [] = True"
| "single_spaced (c # cs) =
     ((is_space c \<longrightarrow> c = 32 \<and> (cs = [] \<or> \<not> is_space (hd cs))) \<and> single_spaced cs)"
section \<open>Python values\<close>

text \<open>
  The values a listing record holds: \<open>None\<close>, text, an integer, a list of texts. A
  record is a \<open>dict\<close> from text to such values, kept as an association list in
  insertion order; \<open>d.get(k)\<close> is \<open>None\<close> for a missing key.
\<close>

datatype pyval = PNone | PStr ustr | PInt int | PList "ustr list"

datatype exn = TypeError | KeyError | IndexError | ValueError | RequestException

type_synonym pydict = "(ustr \<times> pyval) list"

fun truthy :: "pyval \<Rightarrow> bool" where
  "truthy PNone = False"
| "truthy (PStr s) = (s \<noteq> [])"
| "truthy (PInt n) = (n \<noteq> 0)"
| "truthy (PList xs) = (xs \<noteq> [])"

text \<open>A list cannot be a dictionary key: using one raises \<open>TypeError\<close>.\<close>

fun hashable :: "pyval \<Rightarrow> bool" where
  "hashable (PList xs) = False"
| "hashable v = True"

definition dict_get :: "pydict \<Rightarrow> ustr \<Rightarrow> pyval" where
  "dict_get d k = (case map_of d k of None \<Rightarrow> PNone | Some v \<Rightarrow> v)"

section \<open>Delta engine (runner.py)\<close>

text \<open>
  \<open>{item.get("url"): item for item in items if item.get("url")}\<close>, the items taken
  from left to right: a key seen again keeps its place and takes the new item.
\<close>

fun index_by_url ::
  "pydict list \<Rightarrow> (pyval \<times> pydict) list \<Rightarrow> exn + (pyval \<times> pydict) list" where
  "index_by_url [] idx = Inr idx"
| "index_by_url (item # items) idx =
     (let u = dict_get item (ascii ''url'')
      in if \<not> truthy u then index_by_url items idx
         else if \<not> hashable u then Inl TypeError
         else index_by_url items (AList.update u item idx))"

text \<open>\<open>[by_url[u] for u in urls]\<close>; a missing key would raise \<open>KeyError\<close>.\<close>

fun lookup_each :: "(pyval \<times> pydict) list \<Rightarrow> pyval list \<Rightarrow> exn + pydict list" where
  "lookup_each idx [] = Inr []"
| "lookup_each idx (u # us) =
     (case map_of idx u of
        None \<Rightarrow> Inl KeyError
      | Some r \<Rightarrow>
          (case lookup_each idx us of
             Inl e \<Rightarrow> Inl e
           | Inr rs \<Rightarrow> Inr (r # rs)))"

record delta =
  new :: "pydict list"
  removed :: "pydict list"
  current :: "pydict list"

text \<open>
  \<open>compute_delta\<close>. Python does not fix the order in which a \<open>set\<close> is walked; here
  the difference of two key sets is walked in the order of the index it comes from,
  and the properties below speak of the elements of \<open>new\<close> and \<open>removed\<close> only.
\<close>

definition compute_delta :: "pydict list \<Rightarrow> pydict list \<Rightarrow> exn + delta" where
  "compute_delta previous current_list =
     (case index_by_url previous [] of
        Inl e \<Rightarrow> Inl e
      | Inr prev_by_url \<Rightarrow>
     (case index_by_url current_list [] of
        Inl e \<Rightarrow> Inl e
      | Inr curr_by_url \<Rightarrow>
     (let prev_urls = map fst prev_by_url;
          curr_urls = map fst curr_by_url;
          new_urls = filter (\<lambda>u. u \<notin> set prev_urls) curr_urls;
          removed_urls = filter (\<lambda>u. u \<notin> set curr_urls) prev_urls
      in (case lookup_each curr_by_url new_urls of
            Inl e \<Rightarrow> Inl e
          | Inr new_listings \<Rightarrow>
         (case lookup_each prev_by_url removed_urls of
            Inl e \<Rightarrow> Inl e
          | Inr removed_listings \<Rightarrow>
              Inr \<lparr>new = new_listings, removed = removed_listings,
                   current = current_list\<rparr>)))))"

text \<open>
  The words of the specification, for comparison: the key of a record is its \<open>url\<close>
  when that is truthy; the record indexed under a key is the last one of the list
  with that key.
\<close>

definition url_key :: "pydict \<Rightarrow> pyval option" where
  "url_key r = (let u = dict_get r (ascii ''url'') in if truthy u then Some u else None)"

definition last_with_url :: "pydict list \<Rightarrow> pyval \<Rightarrow> pydict option" where
  "last_with_url rs u =
     (case filter (\<lambda>r. url_key r = Some u) rs of
        [] \<Rightarrow> None
      | y # ys \<Rightarrow> Some (last (y # ys)))"

definition urls_hashable :: "pydict list \<Rightarrow> bool" where
  "urls_hashable rs =
     list_all (\<lambda>r. case url_key r of None \<Rightarrow> True | Some u \<Rightarrow> hashable u) rs"

text \<open>Records for the examples.\<close>

definition rec_a :: pydict where
  "rec_a = [(ascii ''url'', PStr (ascii ''a''))]"

definition rec_b :: pydict where
  "rec_b = [(ascii ''url'', PStr (ascii ''b''))]"

definition rec_c :: pydict where
  "rec_c = [(ascii ''url'', PStr (ascii ''c''))]"

definition rec_c2 :: pydict where
  "rec_c2 = [(ascii ''url'', PStr (ascii ''c'')), (ascii ''price'', PInt 1)]"
section \<open>The world outside the program\<close>

text \<open>
  The network, the HTML parser (BeautifulSoup with lxml), the clock, Unicode's
  lower-casing and the thread pool are not code of this repository. They are the
  fields of an environment, about which nothing is assumed: the answer of the site to
  the n-th GET of the run, the answers of the parsed document to the queries the code
  asks, the n-th reading of \<open>datetime.utcnow().isoformat(timespec="seconds")\<close>,
  \<open>str.lower\<close>, and the order in which the pool completes the tasks it was given.
\<close>

record ListingSummary =
  title :: ustr
  url :: ustr
  location :: "ustr option"
  price :: "int option"
  photos :: "ustr list"

text \<open>
  A card of the search page, as its queries answer:
  \<open>title_el\<close> is \<open>get_text()\<close> of \<open>card.select_one("h2, h3, h4, a[data-test='sl-card-title']")\<close>,
  \<open>link_el\<close> is the \<open>href\<close> of \<open>card.find("a", href=True)\<close>,
  \<open>loc_attr_el\<close> is \<open>get_text()\<close> of \<open>card.find(attrs={"data-test": re.compile(".*location.*")})\<close>,
  \<open>loc_p_el\<close> is \<open>get_text()\<close> of \<open>card.find("p", class_=re.compile("Location", re.I))\<close>,
  \<open>strings\<close> are the text nodes of the card in document order, and
  \<open>imgs\<close> gives \<open>img.get("data-src")\<close> and \<open>img.get("src")\<close> for each of \<open>card.find_all("img")\<close>.
  \<open>None\<close> stands for an element or attribute that is not there.
\<close>

record card =
  title_el :: "ustr option"
  link_el :: "ustr option"
  loc_attr_el :: "ustr option"
  loc_p_el :: "ustr option"
  strings :: "ustr list"
  imgs :: "(ustr option \<times> ustr option) list"

text \<open>
  An agency container: \<open>get_text()\<close> of \<open>agency.find(["h2", "h3"])\<close>, the text node
  \<open>agency.find(string=re.compile(r"\+?\d[\d\s]{6,}"))\<close>, and the \<open>href\<close> of
  \<open>agency.find("a", href=re.compile(r"mailto:", re.I))\<close>.
\<close>

record agency_card =
  name_el :: "ustr option"
  phone_el :: "ustr option"
  email_el :: "ustr option"

text \<open>
  A listing page, as its queries answer:
  \<open>h1_el\<close> is \<open>get_text()\<close> of \<open>soup.find("h1")\<close>,
  \<open>desc_attr_el\<close> that of \<open>soup.find(attrs={"data-test": "sl-price-description"})\<close>,
  \<open>desc_select_one sel\<close> that of \<open>soup.select_one(sel)\<close>,
  \<open>page_strings\<close> are the text nodes of the page in document order,
  \<open>page_loc_attr_el\<close> is \<open>get_text()\<close> of \<open>soup.find(attrs={"data-test": re.compile(".*location.*")})\<close>,
  \<open>page_loc_p_el\<close> that of \<open>soup.find("p", class_=re.compile("Localisation|Adresse", re.I))\<close>,
  \<open>energy_block\<close> is the text node \<open>soup.find(string=re.compile(r"Classe\s+[A-G]", re.I))\<close>,
  \<open>label_el\<close> the text node found for the pattern "diagnostic de performance energetique"
  (written with its accents in the source) and \<open>label_parent\<close> the \<open>get_text()\<close> of its
  parent,
  \<open>transport_block\<close> is the text node \<open>soup.find(string=re.compile(r"Transport|Metro|Bus", re.I))\<close>
  (again with the accent) and \<open>transport_parent\<close> is \<open>get_text(" ", strip=True)\<close> of its
  parent,
  \<open>page_imgs\<close> is as \<open>imgs\<close> of a card,
  \<open>agency_select_one sel\<close> is \<open>soup.select_one(sel)\<close>, and
  \<open>tel_el\<close> and \<open>mailto_el\<close> are the \<open>href\<close> of \<open>soup.find("a", href=re.compile(r"tel:", re.I))\<close>
  and of \<open>soup.find("a", href=re.compile(r"mailto:", re.I))\<close>.
\<close>

record listing_page =
  h1_el :: "ustr option"
  desc_attr_el :: "ustr option"
  desc_select_one :: "string \<Rightarrow> ustr option"
  page_strings :: "ustr list"
  page_loc_attr_el :: "ustr option"
  page_loc_p_el :: "ustr option"
  energy_block :: "ustr option"
  label_el :: "ustr option"
  label_parent :: "ustr option"
  transport_block :: "ustr option"
  transport_parent :: "ustr option"
  page_imgs :: "(ustr option \<times> ustr option) list"
  agency_select_one :: "string \<Rightarrow> agency_card option"
  tel_el :: "ustr option"
  mailto_el :: "ustr option"

record env =
  http_get :: "nat \<Rightarrow> ustr \<Rightarrow> exn + ustr"
  search_soup :: "ustr \<Rightarrow> string \<Rightarrow> card list"
  listing_soup :: "ustr \<Rightarrow> listing_page"
  utcnow :: "nat \<Rightarrow> ustr"
  lower :: "ustr \<Rightarrow> ustr"
  completion_order :: "ListingSummary list \<Rightarrow> ListingSummary list"

text \<open>
  What the run leaves behind: the URLs requested, in order; the number of clock
  readings; and the log at its default level, which shows warnings only.
\<close>

datatype warning = No_cards_found | Deep_scrape_failed ustr exn

record world =
  requests :: "ustr list"
  ticks :: nat
  warnings :: "warning list"

definition read_clock :: "env \<Rightarrow> world \<Rightarrow> ustr \<times> world" where
  "read_clock e w = (utcnow e (ticks w), w\<lparr>ticks := Suc (ticks w)\<rparr>)"

definition log_warning :: "warning \<Rightarrow> world \<Rightarrow> world" where
  "log_warning x w = w\<lparr>warnings := warnings w @ [x]\<rparr>"

section \<open>Extractors (seloger_parser.py)\<close>

text \<open>\<open>_fetch_url\<close>: one GET; a failed request or status raises.\<close>

definition fetch_url :: "env \<Rightarrow> ustr \<Rightarrow> world \<Rightarrow> (exn + ustr) \<times> world" where
  "fetch_url e u w = (http_get e (length (requests w)) u, w\<lparr>requests := requests w @ [u]\<rparr>)"

text \<open>
  The pattern \<open>\d[\d\s]*EUR\<close> (the euro sign U+20AC) at the start of a text. The star
  is greedy; giving characters back cannot help, since the euro sign is neither
  digit nor whitespace: the pattern matches when the sign follows the whole run.
\<close>

definition price_re_at :: "ustr \<Rightarrow> ustr option" where
  "price_re_at s =
     (case s of
        [] \<Rightarrow> None
      | c # cs \<Rightarrow>
          if is_digit c then
            (case dropWhile digit_or_space cs of
               [] \<Rightarrow> None
             | x # _ \<Rightarrow>
                 if x = 8364 then Some (c # takeWhile digit_or_space cs @ [8364]) else None)
          else None)"

text \<open>\<open>find(string=pattern)\<close>: the first text node in which the pattern is found.\<close>

definition find_string :: "(ustr \<Rightarrow> ustr option) \<Rightarrow> ustr list \<Rightarrow> ustr option" where
  "find_string m nodes = find (\<lambda>t. re_search m t \<noteq> None) nodes"

text \<open>\<open>sub in s\<close> for texts.\<close>

fun contains :: "ustr \<Rightarrow> ustr \<Rightarrow> bool" where
  "contains sub [] = (sub = [])"
| "contains sub (c # cs) = (take (length sub) (c # cs) = sub \<or> contains sub cs)"

text \<open>
  The loop over the images, shared by both extractors:
  \<open>src = img.get("data-src") or img.get("src")\<close>, kept when it is not empty, holds
  "seloger.com" and is not among the photos yet.
\<close>

fun add_photos :: "(ustr option \<times> ustr option) list \<Rightarrow> ustr list \<Rightarrow> ustr list" where
  "add_photos [] photos' = photos'"
| "add_photos ((data_src, src_attr) # rest) photos' =
     (let src = (case data_src of
                   None \<Rightarrow> src_attr
                 | Some d \<Rightarrow> if d \<noteq> [] then Some d else src_attr)
      in case src of
           None \<Rightarrow> add_photos rest photos'
         | Some s \<Rightarrow>
             if s \<noteq> [] \<and> contains (ascii ''seloger.com'') s \<and> s \<notin> set photos'
             then add_photos rest (photos' @ [s])
             else add_photos rest photos')"

definition site_origin :: ustr where
  "site_origin = ascii ''https://www.seloger.com''"

text \<open>
  The body of the loop over the cards; \<open>None\<close> is the \<open>continue\<close> of a card without
  URL. The \<open>try\<close> around the body catches what a card raises; no step of the body, as
  written here, raises.
\<close>

definition parse_card :: "card \<Rightarrow> ListingSummary option" where
  "parse_card c =
     (let title' = (case title_el c of
                      Some t \<Rightarrow> clean_text (Some t)
                    | None \<Rightarrow> ascii ''Property listing'');
          url0 = (case link_el c of Some h \<Rightarrow> h | None \<Rightarrow> []);
          url' = (if url0 \<noteq> [] \<and> take 1 url0 = ascii ''/'' then site_origin @ url0 else url0);
          loc_el = (case loc_attr_el c of Some t \<Rightarrow> Some t | None \<Rightarrow> loc_p_el c);
          location' = (case loc_el of Some t \<Rightarrow> Some (clean_text (Some t)) | None \<Rightarrow> None);
          price_el = find_string price_re_at (strings c);
          price' = (case price_el of
                      None \<Rightarrow> None
                    | Some t \<Rightarrow> if t \<noteq> [] then extract_int (Some t) else None);
          photos' = add_photos (imgs c) []
      in if url' = [] then None
         else Some \<lparr>title = title', url = url', location = location', price = price',
                     photos = photos'\<rparr>)"

fun parse_cards :: "card list \<Rightarrow> ListingSummary list \<Rightarrow> ListingSummary list" where
  "parse_cards [] listings = listings"
| "parse_cards (c # cards) listings =
     (case parse_card c of
        None \<Rightarrow> parse_cards cards listings
      | Some s \<Rightarrow> parse_cards cards (listings @ [s]))"

definition card_selectors :: "string list" where
  "card_selectors =
     [''div.c-pa-list'', ''div.ListingCell'', ''article[data-test='sl-card-result']'']"

text \<open>The loop over the selectors: it stops at the first that selects something.\<close>

fun select_cards :: "(string \<Rightarrow> card list) \<Rightarrow> string list \<Rightarrow> card list" where
  "select_cards soup [] = []"
| "select_cards soup (selector # rest) =
     (let cards = soup selector
      in if cards \<noteq> [] then cards else select_cards soup rest)"

definition parse_search_results ::
  "env \<Rightarrow> ustr \<Rightarrow> world \<Rightarrow> ListingSummary list \<times> world" where
  "parse_search_results e html w =
     (let soup = search_soup e html;
          cards = select_cards soup card_selectors
      in if cards = [] then ([], log_warning No_cards_found w)
         else (parse_cards cards [], w))"

text \<open>
  The pattern \<open>(Construction\s+en\s+)?(19|20)\d{2}\<close> at the start of a text.
  \<open>year4_at\<close> is \<open>(19|20)\d{2}\<close>; \<open>construction_en_at\<close> is the optional group, giving
  the text it matched and the rest. Each \<open>\s+\<close> takes the whole run of whitespace:
  after a shorter one the next character would be whitespace, where \<open>e\<close>, \<open>1\<close> or \<open>2\<close>
  must follow. When the year does not follow the group, the group is skipped.
\<close>

definition year4_at :: "ustr \<Rightarrow> ustr option" where
  "year4_at s =
     (case s of
        a # b # c # d # _ \<Rightarrow>
          if ((a = 49 \<and> b = 57) \<or> (a = 50 \<and> b = 48)) \<and> is_digit c \<and> is_digit d
          then Some [a, b, c, d] else None
      | _ \<Rightarrow> None)"

definition construction_en_at :: "ustr \<Rightarrow> (ustr \<times> ustr) option" where
  "construction_en_at s =
     (if take 12 s = ascii ''Construction'' then
        (let r1 = drop 12 s;
             w1 = takeWhile is_space r1;
             r2 = dropWhile is_space r1
         in if w1 \<noteq> [] \<and> take 2 r2 = ascii ''en'' then
              (let r3 = drop 2 r2;
                   w2 = takeWhile is_space r3;
                   r4 = dropWhile is_space r3
               in if w2 \<noteq> [] then Some (ascii ''Construction'' @ w1 @ ascii ''en'' @ w2, r4)
                  else None)
            else None)
      else None)"

definition year_re_at :: "ustr \<Rightarrow> ustr option" where
  "year_re_at s =
     (case construction_en_at s of
        None \<Rightarrow> year4_at s
      | Some (g, r) \<Rightarrow>
          (case year4_at r of
             None \<Rightarrow> year4_at s
           | Some y \<Rightarrow> Some (g @ y)))"

text \<open>\<open>str.split()\<close>: the maximal runs of characters that are not whitespace.\<close>

fun split_ws_from :: "ustr \<Rightarrow> ustr \<Rightarrow> ustr list" where
  "split_ws_from cur [] = (if cur = [] then [] else [cur])"
| "split_ws_from cur (c # cs) =
     (if is_space c then (if cur = [] then split_ws_from [] cs else cur # split_ws_from [] cs)
      else split_ws_from (cur @ [c]) cs)"

definition split_ws :: "ustr \<Rightarrow> ustr list" where
  "split_ws s = split_ws_from [] s"

text \<open>\<open>re.split\<close> on a class of single characters: the pieces between them.\<close>

fun split_on_from :: "(nat \<Rightarrow> bool) \<Rightarrow> ustr \<Rightarrow> ustr \<Rightarrow> ustr list" where
  "split_on_from P cur [] = [cur]"
| "split_on_from P cur (c # cs) =
     (if P c then cur # split_on_from P [] cs else split_on_from P (cur @ [c]) cs)"

text \<open>\<open>s.split(":", 1)[-1]\<close>: what follows the first colon, or all of \<open>s\<close> without one.\<close>

definition after_colon :: "ustr \<Rightarrow> ustr" where
  "after_colon s = (if 58 \<in> set s then tl (dropWhile (\<lambda>c. c \<noteq> 58) s) else s)"

text \<open>
  \<open>construction_date\<close>: \<open>re.search\<close> over the raw text and the last piece of
  \<open>group(0).split()\<close>; indexing an empty list would raise \<open>IndexError\<close>.
\<close>

definition construction_date_of :: "ustr \<Rightarrow> exn + ustr option" where
  "construction_date_of html =
     (case re_search year_re_at html of
        None \<Rightarrow> Inr None
      | Some g \<Rightarrow>
          (case split_ws g of
             [] \<Rightarrow> Inl IndexError
           | p # ps \<Rightarrow> Inr (Some (last (p # ps)))))"

definition desc_selectors :: "string list" where
  "desc_selectors =
     [''div.Description'', ''section[data-test='sl-description']'',
      ''div.c-pa-list-details__text'']"

fun first_select_one :: "(string \<Rightarrow> 'a option) \<Rightarrow> string list \<Rightarrow> 'a option" where
  "first_select_one soup [] = None"
| "first_select_one soup (selector # rest) =
     (case soup selector of
        Some el \<Rightarrow> Some el
      | None \<Rightarrow> first_select_one soup rest)"

definition agency_selectors :: "string list" where
  "agency_selectors =
     [''div[data-test='sl-contact-info']'', ''div.AgencyCard'',
      ''div[data-test='agency-card']'']"

text \<open>\<open>not x\<close> for an optional text: \<open>None\<close> or empty.\<close>

definition falsy :: "ustr option \<Rightarrow> bool" where
  "falsy x \<longleftrightarrow> (case x of None \<Rightarrow> True | Some s \<Rightarrow> s = [])"

text \<open>The loop that keeps the pieces naming a metro (written with its accent) or a bus.\<close>

fun transport_pieces :: "(ustr \<Rightarrow> ustr) \<Rightarrow> ustr list \<Rightarrow> ustr list \<Rightarrow> ustr list" where
  "transport_pieces low [] nearby = nearby"
| "transport_pieces low (p # pieces) nearby =
     (let p' = clean_text (Some p)
      in if p' \<noteq> [] \<and> (contains [109, 233, 116, 114, 111] (low p') \<or> contains (ascii ''bus'') (low p'))
         then transport_pieces low pieces (nearby @ [p'])
         else transport_pieces low pieces nearby)"

definition opt_str :: "ustr option \<Rightarrow> pyval" where
  "opt_str x = (case x of None \<Rightarrow> PNone | Some s \<Rightarrow> PStr s)"

definition opt_int :: "int option \<Rightarrow> pyval" where
  "opt_int x = (case x of None \<Rightarrow> PNone | Some n \<Rightarrow> PInt n)"

text \<open>
  \<open>_parse_listing_page\<close>, block by block. Title: the heading when its cleaned text is
  not empty, else the summary's title.
\<close>

definition resolve_title :: "listing_page \<Rightarrow> ListingSummary \<Rightarrow> ustr" where
  "resolve_title soup summary =
     (case h1_el soup of
        None \<Rightarrow> title summary
      | Some t \<Rightarrow> if clean_text (Some t) \<noteq> [] then clean_text (Some t) else title summary)"

text \<open>Description: the marked element, else the first of three selectors that selects.\<close>

definition resolve_description :: "listing_page \<Rightarrow> ustr" where
  "resolve_description soup =
     (let desc_el = (case desc_attr_el soup of
                       Some t \<Rightarrow> Some t
                     | None \<Rightarrow> first_select_one (desc_select_one soup) desc_selectors)
      in case desc_el of None \<Rightarrow> [] | Some t \<Rightarrow> clean_text (Some t))"

text \<open>Price: \<open>extract_int\<close> of the first text node with the price pattern, if there is one.\<close>

definition resolve_price :: "listing_page \<Rightarrow> ListingSummary \<Rightarrow> int option" where
  "resolve_price soup summary =
     (let price_el = find_string price_re_at (page_strings soup)
      in if falsy price_el then price summary else extract_int price_el)"

text \<open>Location.\<close>

definition resolve_location :: "listing_page \<Rightarrow> ListingSummary \<Rightarrow> ustr option" where
  "resolve_location soup summary =
     (let loc_el = (case page_loc_attr_el soup of
                      Some t \<Rightarrow> Some t
                    | None \<Rightarrow> page_loc_p_el soup)
      in case loc_el of
           None \<Rightarrow> location summary
         | Some t \<Rightarrow> Some (clean_text (Some t)))"

text \<open>Energy info.\<close>

definition resolve_energy_info :: "listing_page \<Rightarrow> ustr option" where
  "resolve_energy_info soup =
     (if \<not> falsy (energy_block soup) then Some (clean_text (energy_block soup))
      else if \<not> falsy (label_el soup) then
        (case label_parent soup of
           None \<Rightarrow> None
         | Some t \<Rightarrow> Some (clean_text (Some t)))
      else None)"

text \<open>
  Publisher info: name, e-mail and phone. The loop over the agency selectors stops
  at the first container found; phone and e-mail still missing after it are looked
  for in the whole page.
\<close>

definition resolve_publisher ::
  "listing_page \<Rightarrow> ustr option \<times> ustr option \<times> ustr option" where
  "resolve_publisher soup =
     (let agency = first_select_one (agency_select_one soup) agency_selectors;
          publisher_name =
            (case agency of
               None \<Rightarrow> None
             | Some a \<Rightarrow>
                 (case name_el a of None \<Rightarrow> None | Some t \<Rightarrow> Some (clean_text (Some t))));
          publisher_phone0 =
            (case agency of
               None \<Rightarrow> None
             | Some a \<Rightarrow>
                 if falsy (phone_el a) then None else Some (clean_text (phone_el a)));
          publisher_email0 =
            (case agency of
               None \<Rightarrow> None
             | Some a \<Rightarrow>
                 (case email_el a of None \<Rightarrow> None | Some h \<Rightarrow> Some (after_colon h)));
          publisher_phone =
            (if falsy publisher_phone0 then
               (case tel_el soup of
                  None \<Rightarrow> publisher_phone0
                | Some h \<Rightarrow> Some (after_colon h))
             else publisher_phone0);
          publisher_email =
            (if falsy publisher_email0 then
               (case mailto_el soup of
                  None \<Rightarrow> publisher_email0
                | Some h \<Rightarrow> Some (after_colon h))
             else publisher_email0)
      in (publisher_name, publisher_email, publisher_phone))"

text \<open>Nearby transport; the pieces are split at bullets (U+2022) and line feeds.\<close>

definition resolve_nearby_transport :: "env \<Rightarrow> listing_page \<Rightarrow> ustr list" where
  "resolve_nearby_transport e soup =
     (if \<not> falsy (transport_block soup) then
        (case transport_parent soup of
           None \<Rightarrow> []
         | Some text \<Rightarrow>
             transport_pieces (lower e) (split_on_from (\<lambda>c. c = 8226 \<or> c = 10) [] text) [])
      else [])"

text \<open>The whole function: the only step that could raise is the construction date.\<close>

definition parse_listing_page ::
  "env \<Rightarrow> ustr \<Rightarrow> ListingSummary \<Rightarrow> world \<Rightarrow> (exn + pydict) \<times> world" where
  "parse_listing_page e html summary w =
     (let soup = listing_soup e html;
          title' = resolve_title soup summary;
          description = resolve_description soup;
          price' = resolve_price soup summary;
          location' = resolve_location soup summary;
          energy_info = resolve_energy_info soup
      in case construction_date_of html of
           Inl err \<Rightarrow> (Inl err, w)
         | Inr construction_date \<Rightarrow>
     (let (publisher_name, publisher_email, publisher_phone) = resolve_publisher soup;
          nearby_transport = resolve_nearby_transport e soup;
          photos' = add_photos (page_imgs soup) (photos summary);
          (now, w') = read_clock e w
      in (Inr [(ascii ''title'', PStr title'),
               (ascii ''description'', PStr description),
               (ascii ''price'', opt_int price'),
               (ascii ''location'', opt_str location'),
               (ascii ''photos'', PList photos'),
               (ascii ''energy_info'', opt_str energy_info),
               (ascii ''construction_date'', opt_str construction_date),
               (ascii ''publisher_name'', opt_str publisher_name),
               (ascii ''publisher_email'', opt_str publisher_email),
               (ascii ''publisher_phone'', opt_str publisher_phone),
               (ascii ''nearby_transport'', PList nearby_transport),
               (ascii ''url'', PStr (url summary)),
               (ascii ''scraped_at'', PStr (now @ ascii ''Z''))], w')))"

text \<open>\<open>_summary_to_dict\<close>.\<close>

definition summary_to_dict :: "env \<Rightarrow> ListingSummary \<Rightarrow> world \<Rightarrow> pydict \<times> world" where
  "summary_to_dict e summary w =
     (let (now, w') = read_clock e w
      in ([(ascii ''title'', PStr (title summary)),
           (ascii ''description'', PStr []),
           (ascii ''price'', opt_int (price summary)),
           (ascii ''location'', opt_str (location summary)),
           (ascii ''photos'', PList (photos summary)),
           (ascii ''energy_info'', PNone),
           (ascii ''construction_date'', PNone),
           (ascii ''publisher_name'', PNone),
           (ascii ''publisher_email'', PNone),
           (ascii ''publisher_phone'', PNone),
           (ascii ''nearby_transport'', PList []),
           (ascii ''url'', PStr (url summary)),
           (ascii ''scraped_at'', PStr (now @ ascii ''Z''))], w'))"

fun summaries_to_dicts ::
  "env \<Rightarrow> ListingSummary list \<Rightarrow> world \<Rightarrow> pydict list \<times> world" where
  "summaries_to_dicts e [] w = ([], w)"
| "summaries_to_dicts e (s # ss) w =
     (let (d, w1) = summary_to_dict e s w;
          (ds, w2) = summaries_to_dicts e ss w1
      in (d # ds, w2))"

section \<open>Enrichment orchestrator\<close>

record SeLogerScraper =
  timeout :: int
  max_workers :: int

text \<open>
  The \<open>worker\<close> of \<open>_deep_scrape_summaries\<close>: one fetch and one parse; whatever either
  raises is caught, logged as a warning, and the worker returns \<open>None\<close>.
\<close>

definition worker :: "env \<Rightarrow> ListingSummary \<Rightarrow> world \<Rightarrow> pydict option \<times> world" where
  "worker e summary w =
     (case fetch_url e (url summary) w of
        (Inl exc, w1) \<Rightarrow> (None, log_warning (Deep_scrape_failed (url summary) exc) w1)
      | (Inr html, w1) \<Rightarrow>
          (case parse_listing_page e html summary w1 of
             (Inl exc, w2) \<Rightarrow> (None, log_warning (Deep_scrape_failed (url summary) exc) w2)
           | (Inr detail, w2) \<Rightarrow> (Some detail, w2)))"

text \<open>
  The tasks as the pool completes them: each result that is a non-empty \<open>dict\<close> is
  appended. A task is run here in one piece, when its turn in the completion order
  comes; the pool may interleave the tasks, which changes the order of the requests
  among themselves and nothing else that is stated below.
\<close>

fun collect_results ::
  "env \<Rightarrow> ListingSummary list \<Rightarrow> pydict list \<Rightarrow> world \<Rightarrow> pydict list \<times> world" where
  "collect_results e [] results w = (results, w)"
| "collect_results e (s # ss) results w =
     (case worker e s w of
        (None, w1) \<Rightarrow> collect_results e ss results w1
      | (Some d, w1) \<Rightarrow>
          if d \<noteq> [] then collect_results e ss (results @ [d]) w1
          else collect_results e ss results w1)"

text \<open>
  \<open>_deep_scrape_summaries\<close>; \<open>ThreadPoolExecutor\<close> raises \<open>ValueError\<close> for a number
  of workers that is not positive. Leaving the \<open>with\<close> block waits for every task.
\<close>

definition deep_scrape_summaries ::
  "env \<Rightarrow> SeLogerScraper \<Rightarrow> ListingSummary list \<Rightarrow> world \<Rightarrow> (exn + pydict list) \<times> world"
  where
  "deep_scrape_summaries e self summaries w =
     (if max_workers self \<le> 0 then (Inl ValueError, w)
      else (let (results, w') = collect_results e (completion_order e summaries) [] w
            in (Inr results, w')))"

text \<open>\<open>xs[:n]\<close>; a negative \<open>n\<close> counts from the end.\<close>

definition slice_to :: "int \<Rightarrow> 'a list \<Rightarrow> 'a list" where
  "slice_to n xs = (if 0 \<le> n then take (nat n) xs else take (nat (int (length xs) + n)) xs)"

text \<open>\<open>scrape\<close>.\<close>

definition scrape ::
  "env \<Rightarrow> SeLogerScraper \<Rightarrow> ustr \<Rightarrow> bool \<Rightarrow> int option \<Rightarrow> world
     \<Rightarrow> (exn + pydict list) \<times> world" where
  "scrape e self start_url deep_scrape limit w =
     (case fetch_url e start_url w of
        (Inl exc, w1) \<Rightarrow> (Inl exc, w1)
      | (Inr html, w1) \<Rightarrow>
          (let (summaries0, w2) = parse_search_results e html w1;
               summaries = (case limit of None \<Rightarrow> summaries0 | Some n \<Rightarrow> slice_to n summaries0)
           in if \<not> deep_scrape then
                (let (ds, w3) = summaries_to_dicts e summaries w2 in (Inr ds, w3))
              else deep_scrape_summaries e self summaries w2))"
section \<open>Notions of the specification\<close>

text \<open>
  An absolute URL begins with a scheme and a colon; a scheme is a letter followed by
  letters, digits, \<open>+\<close>, \<open>-\<close> or \<open>.\<close> (RFC 3986).
\<close>

definition is_alpha :: "nat \<Rightarrow> bool" where
  "is_alpha c \<longleftrightarrow> (65 \<le> c \<and> c \<le> 90) \<or> (97 \<le> c \<and> c \<le> 122)"

definition scheme_char :: "nat \<Rightarrow> bool" where
  "scheme_char c \<longleftrightarrow> is_alpha c \<or> ascii_digit c \<or> c = 43 \<or> c = 45 \<or> c = 46"

definition is_absolute_url :: "ustr \<Rightarrow> bool" where
  "is_absolute_url u =
     (case takeWhile (\<lambda>c. c \<noteq> 58) u of
        [] \<Rightarrow> False
      | c # cs \<Rightarrow> 58 \<in> set u \<and> is_alpha c \<and> list_all scheme_char cs)"

text \<open>Whether the first digit of a text has a minus sign directly before it.\<close>

fun minus_before_first_digit :: "ustr \<Rightarrow> bool" where
  "minus_before_first_digit [] = False"
| "minus_before_first_digit [c] = False"
| "minus_before_first_digit (c # d # r) =
     (if is_digit c then False
      else if is_digit d then c = 45
      else minus_before_first_digit (d # r))"

text \<open>A year-like token: 19 or 20 and two digits.\<close>

definition is_year_token :: "ustr \<Rightarrow> bool" where
  "is_year_token y =
     (case y of
        [a, b, c, d] \<Rightarrow> ((a = 49 \<and> b = 57) \<or> (a = 50 \<and> b = 48)) \<and> is_digit c \<and> is_digit d
      | _ \<Rightarrow> False)"

text \<open>The keys of a record, in the order of the \<open>dict\<close> display.\<close>

definition record_keys :: "ustr list" where
  "record_keys =
     [ascii ''title'', ascii ''description'', ascii ''price'', ascii ''location'',
      ascii ''photos'', ascii ''energy_info'', ascii ''construction_date'',
      ascii ''publisher_name'', ascii ''publisher_email'', ascii ''publisher_phone'',
      ascii ''nearby_transport'', ascii ''url'', ascii ''scraped_at'']"

text \<open>The URL a warning of the orchestrator names.\<close>

fun warning_url :: "warning \<Rightarrow> pyval" where
  "warning_url No_cards_found = PNone"
| "warning_url (Deep_scrape_failed u x) = PStr u"

section \<open>Example inputs\<close>

definition card0 :: card where
  "card0 = \<lparr>title_el = None, link_el = None, loc_attr_el = None, loc_p_el = None,
             strings = [], imgs = []\<rparr>"

definition page0 :: listing_page where
  "page0 = \<lparr>h1_el = None, desc_attr_el = None, desc_select_one = (\<lambda>sel. None),
             page_strings = [], page_loc_attr_el = None, page_loc_p_el = None,
             energy_block = None, label_el = None, label_parent = None,
             transport_block = None, transport_parent = None, page_imgs = [],
             agency_select_one = (\<lambda>sel. None), tel_el = None, mailto_el = None\<rparr>"

definition env0 :: env where
  "env0 = \<lparr>http_get = (\<lambda>n u. Inr []), search_soup = (\<lambda>html sel. []),
            listing_soup = (\<lambda>html. page0), utcnow = (\<lambda>n. ascii ''2024-05-01T10:00:00''),
            lower = (\<lambda>s. s), completion_order = rev\<rparr>"

definition world0 :: world where
  "world0 = \<lparr>requests = [], ticks = 0, warnings = []\<rparr>"

definition scraper0 :: SeLogerScraper where
  "scraper0 = \<lparr>timeout = 20, max_workers = 2\<rparr>"

text \<open>A card whose link is relative without a leading slash, and a well-formed one.\<close>

definition card_rel :: card where
  "card_rel = card0\<lparr>link_el := Some (ascii ''annonces/1.htm'')\<rparr>"

definition card_ok :: card where
  "card_ok = card0\<lparr>link_el := Some (ascii ''/annonces/2.htm'')\<rparr>"

text \<open>A card whose price text node is "-5 EUR", with the euro sign.\<close>

definition card_neg :: card where
  "card_neg = card0\<lparr>link_el := Some (ascii ''/a''), strings := [ascii ''-5 '' @ [8364]]\<rparr>"

text \<open>
  Search pages: one where only the first selector selects, giving the three cards
  above and one without link; one where the second and the third selector select
  different cards.
\<close>

definition env_cards :: env where
  "env_cards = env0\<lparr>search_soup :=
     (\<lambda>html sel. if sel = ''div.c-pa-list'' then [card_rel, card0, card_ok, card_neg] else [])\<rparr>"

definition env_two :: env where
  "env_two = env0\<lparr>search_soup :=
     (\<lambda>html sel. if sel = ''div.ListingCell'' then [card_ok]
                  else if sel = ''article[data-test='sl-card-result']'' then [card_neg, card_ok]
                  else [])\<rparr>"

text \<open>The value under a key in the record a call returned, or what the call raised.\<close>

definition field_of :: "(exn + pydict) \<times> world \<Rightarrow> ustr \<Rightarrow> exn + pyval" where
  "field_of r k = (case fst r of Inl x \<Rightarrow> Inl x | Inr d \<Rightarrow> Inr (dict_get d k))"

definition summary0 :: ListingSummary where
  "summary0 = \<lparr>title = ascii ''Studio'', url = ascii ''https://www.seloger.com/a/1'',
                location = None, price = Some 900, photos = []\<rparr>"

text \<open>A listing page without agency container but with a \<open>tel:\<close> link, and one with a heading.\<close>

definition page_tel :: listing_page where
  "page_tel = page0\<lparr>tel_el := Some (ascii ''tel:0102030405'')\<rparr>"

definition env_tel :: env where
  "env_tel = env0\<lparr>listing_soup := (\<lambda>html. page_tel)\<rparr>"

text \<open>
  A record of the shallow mode, for the summary it was made from and the clock reading
  \<open>now\<close>: the summary's own fields as they stand, empty text as description, no
  transport line, nothing in the fields only a listing page can fill, and the reading
  with a \<open>Z\<close> after it as time stamp.
\<close>

definition shallow_record :: "pydict \<Rightarrow> ListingSummary \<Rightarrow> ustr \<Rightarrow> bool" where
  "shallow_record r s now \<longleftrightarrow>
       dict_get r (ascii ''title'') = PStr (title s)
     \<and> dict_get r (ascii ''description'') = PStr []
     \<and> dict_get r (ascii ''price'') = opt_int (price s)
     \<and> dict_get r (ascii ''location'') = opt_str (location s)
     \<and> dict_get r (ascii ''photos'') = PList (photos s)
     \<and> dict_get r (ascii ''energy_info'') = PNone
     \<and> dict_get r (ascii ''construction_date'') = PNone
     \<and> dict_get r (ascii ''publisher_name'') = PNone
     \<and> dict_get r (ascii ''publisher_email'') = PNone
     \<and> dict_get r (ascii ''publisher_phone'') = PNone
     \<and> dict_get r (ascii ''nearby_transport'') = PList []
     \<and> dict_get r (ascii ''url'') = PStr (url s)
     \<and> dict_get r (ascii ''scraped_at'') = PStr (now @ ascii ''Z'')"

text \<open>
  The tasks of a deep scrape, in the order in which they complete, each with the
  number its request has in the run; whether the site answers that request; and the
  warning a task leaves when it does not.
\<close>

definition tasks :: "env \<Rightarrow> ListingSummary list \<Rightarrow> world \<Rightarrow> (ListingSummary \<times> nat) list" where
  "tasks e summaries w =
     zip (completion_order e summaries)
       [length (requests w) ..< length (requests w) + length (completion_order e summaries)]"

definition fetch_ok :: "env \<Rightarrow> ListingSummary \<times> nat \<Rightarrow> bool" where
  "fetch_ok e t = (case http_get e (snd t) (url (fst t)) of Inl x \<Rightarrow> False | Inr html \<Rightarrow> True)"

definition failure_of :: "env \<Rightarrow> ListingSummary \<times> nat \<Rightarrow> warning list" where
  "failure_of e t =
     (case http_get e (snd t) (url (fst t)) of
        Inl x \<Rightarrow> [Deep_scrape_failed (url (fst t)) x]
      | Inr html \<Rightarrow> [])"

definition url_of :: "pydict \<Rightarrow> pyval" where
  "url_of d = dict_get d (ascii ''url'')"

text \<open>Five summaries, and a site that fails every request for the third one's page.\<close>

definition listing :: "string \<Rightarrow> ListingSummary" where
  "listing u = \<lparr>title = ascii ''Studio'', url = ascii u, location = None, price = None,
                 photos = []\<rparr>"

definition five_summaries :: "ListingSummary list" where
  "five_summaries =
     [listing ''https://www.seloger.com/a/1'', listing ''https://www.seloger.com/a/2'',
      listing ''https://www.seloger.com/a/3'', listing ''https://www.seloger.com/a/4'',
      listing ''https://www.seloger.com/a/5'']"

definition env_fail :: env where
  "env_fail = env0\<lparr>http_get :=
     (\<lambda>n u. if u = ascii ''https://www.seloger.com/a/3'' then Inl RequestException
             else Inr [])\<rparr>"

section \<open>The digit table below U+0660\<close>

lemma digit_value_below:
  "c < 1632 \<Longrightarrow> digit_value c = (if 48 \<le> c \<and> c \<le> 57 then Some (c - 48) else None)"
  by (simp add: digit_value_def nd_starts_def)

lemma is_digit_below: "c < 1632 \<Longrightarrow> is_digit c \<longleftrightarrow> 48 \<le> c \<and> c \<le> 57"
  by (simp add: is_digit_def digit_value_below)

lemma digit_value_euro: "digit_value 8364 = None"
  by (simp add: digit_value_def nd_starts_def)

lemma is_digit_euro: "\<not> is_digit 8364"
  by (simp add: is_digit_def digit_value_euro)

section \<open>clean_text\<close>

lemma is_space_32: "is_space 32"
  by (simp add: is_space_def)

lemma sub_whitespace_Nil_iff: "sub_whitespace t = [] \<longleftrightarrow> t = []"
  by (cases t) auto

lemma hd_sub_whitespace: "t \<noteq> [] \<Longrightarrow> is_space (hd (sub_whitespace t)) = is_space (hd t)"
  by (cases t) (auto simp: is_space_32)

lemma single_spaced_sub_whitespace: "single_spaced (sub_whitespace s)"
proof (induction s rule: sub_whitespace.induct)
  case 1
  show ?case by simp
next
  case (2 c cs)
  show ?case
  proof (cases "is_space c")
    case True
    let ?r = "dropWhile is_space cs"
    have "sub_whitespace ?r = [] \<or> \<not> is_space (hd (sub_whitespace ?r))"
    proof (cases "?r = []")
      case True
      then have "sub_whitespace ?r = []" by (simp only: sub_whitespace.simps)
      then show ?thesis by blast
    next
      case False
      then have "\<not> is_space (hd ?r)" by (rule hd_dropWhile)
      with False show ?thesis by (simp add: hd_sub_whitespace)
    qed
    with True 2 show ?thesis by simp
  next
    case False
    with 2 show ?thesis by simp
  qed
qed

lemma sub_whitespace_fixed: "single_spaced t \<Longrightarrow> sub_whitespace t = t"
proof (induction t)
  case Nil
  show ?case by simp
next
  case (Cons c cs)
  show ?case
  proof (cases "is_space c")
    case True
    with Cons.prems have c: "c = 32" and h: "cs = [] \<or> \<not> is_space (hd cs)" by auto
    from h have "dropWhile is_space cs = cs" by (simp add: dropWhile_eq_self_iff)
    with True c Cons show ?thesis by simp
  next
    case False
    with Cons show ?thesis by simp
  qed
qed

lemma single_spaced_dropWhile: "single_spaced t \<Longrightarrow> single_spaced (dropWhile is_space t)"
  by (induction t) auto

lemma single_spaced_prefix: "single_spaced (xs @ ys) \<Longrightarrow> single_spaced xs"
proof (induction xs)
  case Nil
  show ?case by simp
next
  case (Cons x xs)
  then show ?case by (cases xs) auto
qed

lemma rstrip_prefix: "rev (dropWhile P (rev t)) @ rev (takeWhile P (rev t)) = t"
proof -
  have "rev (takeWhile P (rev t) @ dropWhile P (rev t)) = t" by simp
  then show ?thesis by (simp only: rev_append)
qed

lemma single_spaced_strip: "single_spaced t \<Longrightarrow> single_spaced (strip t)"
proof -
  assume "single_spaced t"
  then have a: "single_spaced (dropWhile is_space t)" by (rule single_spaced_dropWhile)
  let ?u = "dropWhile is_space t"
  have "single_spaced (rev (dropWhile is_space (rev ?u)) @ rev (takeWhile is_space (rev ?u)))"
    using a by (simp only: rstrip_prefix)
  then show ?thesis unfolding strip_def by (rule single_spaced_prefix)
qed

lemma strip_idem: "strip (strip t) = strip t"
proof -
  let ?u = "dropWhile is_space t"
  let ?w = "rev (dropWhile is_space (rev ?u))"
  have w: "strip t = ?w" by (simp add: strip_def)
  have "dropWhile is_space ?w = ?w"
  proof (cases "?w = []")
    case True
    then show ?thesis by (simp only: dropWhile.simps)
  next
    case False
    have u: "?w @ rev (takeWhile is_space (rev ?u)) = ?u" by (rule rstrip_prefix)
    from False u have "hd ?w = hd ?u" by (metis hd_append2)
    moreover from False u have "?u \<noteq> []" by (metis append_is_Nil_conv)
    then have "\<not> is_space (hd ?u)" by (rule hd_dropWhile)
    ultimately show ?thesis using False by (simp add: dropWhile_eq_self_iff)
  qed
  then have "strip ?w = ?w" by (simp add: strip_def)
  with w show ?thesis by simp
qed

lemma clean_text_single_spaced: "single_spaced (clean_text v)"
  by (cases v) (simp_all add: clean_text_def single_spaced_strip single_spaced_sub_whitespace)

text \<open>
  C8. \<open>clean_text\<close> is a total function (the recursion of \<open>sub_whitespace\<close> terminates,
  and no branch raises); \<open>None\<close> and the empty text both give the empty text; and cleaning
  a cleaned text changes nothing.
\<close>

theorem clean_text_total_idempotent:
  "clean_text None = [] \<and> clean_text (Some []) = []
   \<and> clean_text (Some (clean_text v)) = clean_text v"
proof -
  have i: "strip (sub_whitespace (strip (sub_whitespace s))) = strip (sub_whitespace s)" for s
  proof -
    have "single_spaced (strip (sub_whitespace s))"
      by (rule single_spaced_strip) (rule single_spaced_sub_whitespace)
    then have "sub_whitespace (strip (sub_whitespace s)) = strip (sub_whitespace s)"
      by (rule sub_whitespace_fixed)
    then show ?thesis by (simp add: strip_idem)
  qed
  have e: "strip [] = []" by (simp add: strip_def)
  show ?thesis
    by (cases v) (simp_all add: clean_text_def i e)
qed

section \<open>extract_int and extract_float\<close>

lemma int_re_at_no_digit:
  "\<not> is_digit c \<Longrightarrow> cs = [] \<or> \<not> is_digit (hd cs) \<Longrightarrow> int_re_at (c # cs) = None"
  by (cases cs) simp_all

lemma re_search_int_none: "\<not> has_digit s \<Longrightarrow> re_search int_re_at s = None"
proof (induction s)
  case Nil
  show ?case by simp
next
  case (Cons c cs)
  from Cons.prems have c: "\<not> is_digit c" and r: "\<not> has_digit cs"
    by (simp_all add: has_digit_def)
  from r have "cs = [] \<or> \<not> is_digit (hd cs)" by (cases cs) (simp_all add: has_digit_def)
  with c have "int_re_at (c # cs) = None" by (rule int_re_at_no_digit)
  with Cons.IH [OF r] show ?case by simp
qed

lemma extract_int_euro_example: "extract_int (Some (ascii ''1 234 '' @ [8364])) = Some 1234"
  by (simp add: extract_int_def ascii_def is_digit_below is_digit_euro digit_value_below
      is_space_def digit_or_space_def py_int_def remove_char_def to_ascii_decimal_def
      ascii_space_def ascii_digit_def max_str_digits_def digits_to_int_def)

lemma extract_int_words_example: "extract_int (Some (ascii ''no digits here'')) = None"
  by (simp add: extract_int_def ascii_def is_digit_below)

lemma extract_float_example:
  "extract_float (Some (ascii ''12,5 m'' @ [178])) = Some (25 / 2)"
  by (simp add: extract_float_def ascii_def is_digit_below digit_value_below
      float_re_unsigned_def py_float_def remove_char_def replace_char_def digits_value_def)

text \<open>
  C9. \<open>extract_int\<close> of "1 234 EUR-sign" is 1234; of "no digits here" it is nothing, as
  of every text without a digit; \<open>extract_float\<close> of "12,5 m2" is 12.5, the comma read
  as the decimal point.
\<close>

theorem extract_int_float_examples:
  "extract_int (Some (ascii ''1 234 '' @ [8364])) = Some 1234
   \<and> extract_int (Some (ascii ''no digits here'')) = None
   \<and> (\<not> has_digit s \<longrightarrow> extract_int (Some s) = None)
   \<and> extract_float (Some (ascii ''12,5 m'' @ [178])) = Some (25 / 2)"
proof (intro conjI impI)
  show "extract_int (Some (ascii ''1 234 '' @ [8364])) = Some 1234"
    by (rule extract_int_euro_example)
  show "extract_int (Some (ascii ''no digits here'')) = None"
    by (rule extract_int_words_example)
  show "extract_int (Some s) = None" if "\<not> has_digit s"
    using re_search_int_none [OF that] by (simp add: extract_int_def)
  show "extract_float (Some (ascii ''12,5 m'' @ [178])) = Some (25 / 2)"
    by (rule extract_float_example)
qed

theorem extract_int_float_examples_witness:
  "\<not> has_digit (ascii ''prix sur demande'')
   \<and> extract_int (Some (ascii ''prix sur demande'')) = None"
  using extract_int_float_examples [of "ascii ''prix sur demande''"]
  by (simp add: has_digit_def ascii_def is_digit_below)
section \<open>compute_delta\<close>

lemma last_with_url_Nil: "last_with_url [] u = None"
  by (simp add: last_with_url_def)

lemma last_with_url_Cons:
  "last_with_url (r # rs) u =
     (case last_with_url rs u of
        Some r' \<Rightarrow> Some r'
      | None \<Rightarrow> if url_key r = Some u then Some r else None)"
  by (simp add: last_with_url_def split: list.splits)

lemma last_with_url_key: "last_with_url rs u = Some r \<Longrightarrow> url_key r = Some u"
proof -
  assume a: "last_with_url rs u = Some r"
  let ?f = "filter (\<lambda>r. url_key r = Some u) rs"
  from a have ne: "?f \<noteq> []" and r: "r = last ?f"
    by (auto simp: last_with_url_def split: list.splits)
  from ne have "last ?f \<in> set ?f" by (rule last_in_set)
  with r show ?thesis by simp
qed

lemma last_with_url_mem: "last_with_url rs u = Some r \<Longrightarrow> r \<in> set rs"
proof -
  assume a: "last_with_url rs u = Some r"
  let ?f = "filter (\<lambda>r. url_key r = Some u) rs"
  from a have ne: "?f \<noteq> []" and r: "r = last ?f"
    by (auto simp: last_with_url_def split: list.splits)
  from ne have "last ?f \<in> set ?f" by (rule last_in_set)
  with r show ?thesis by simp
qed

lemma index_by_url_spec:
  "urls_hashable items \<Longrightarrow> distinct (map fst idx) \<Longrightarrow>
   \<exists>idx'. index_by_url items idx = Inr idx' \<and> distinct (map fst idx')
     \<and> (\<forall>u. map_of idx' u =
            (case last_with_url items u of Some r \<Rightarrow> Some r | None \<Rightarrow> map_of idx u))"
proof (induction items arbitrary: idx)
  case Nil
  then show ?case by (simp add: last_with_url_Nil)
next
  case (Cons item items)
  from Cons.prems(1) have h: "urls_hashable items"
    and hi: "case url_key item of None \<Rightarrow> True | Some u \<Rightarrow> hashable u"
    by (simp_all add: urls_hashable_def)
  let ?u = "dict_get item (ascii ''url'')"
  show ?case
  proof (cases "truthy ?u")
    case False
    then have k: "url_key item = None" by (simp add: url_key_def)
    from Cons.IH [OF h Cons.prems(2)] obtain idx' where
      "index_by_url items idx = Inr idx'" "distinct (map fst idx')"
      "\<forall>u. map_of idx' u = (case last_with_url items u of Some r \<Rightarrow> Some r | None \<Rightarrow> map_of idx u)"
      by blast
    with False k show ?thesis
      by (simp add: last_with_url_Cons split: option.splits)
  next
    case True
    then have k: "url_key item = Some ?u" by (simp add: url_key_def)
    with hi have hu: "hashable ?u" by simp
    have d: "distinct (map fst (AList.update ?u item idx))"
      using Cons.prems(2) by (rule distinct_update)
    from Cons.IH [OF h d] obtain idx' where
      i: "index_by_url items (AList.update ?u item idx) = Inr idx'" and d': "distinct (map fst idx')"
      and m: "\<forall>u. map_of idx' u = (case last_with_url items u of Some r \<Rightarrow> Some r
                 | None \<Rightarrow> map_of (AList.update ?u item idx) u)"
      by blast
    from i True hu have "index_by_url (item # items) idx = Inr idx'" by simp
    moreover have "map_of idx' u = (case last_with_url (item # items) u of Some r \<Rightarrow> Some r
                 | None \<Rightarrow> map_of idx u)" for u
      using m k by (auto simp: last_with_url_Cons update_conv' split: option.splits)
    ultimately show ?thesis using d' by blast
  qed
qed

lemma lookup_each_present:
  "set us \<subseteq> fst ` set idx \<Longrightarrow> lookup_each idx us = Inr (map (\<lambda>u. the (map_of idx u)) us)"
proof (induction us)
  case Nil
  show ?case by simp
next
  case (Cons u us)
  then have "u \<in> fst ` set idx" by simp
  then obtain r where "map_of idx u = Some r"
    by (metis domD domI dom_map_of_conv_image_fst)
  with Cons show ?case by simp
qed


lemma delta_side:
  assumes da: "distinct (map fst idxA)"
    and ma: "\<forall>u. map_of idxA u = last_with_url A u"
    and mb: "\<forall>u. map_of idxB u = last_with_url B u"
  defines "us \<equiv> filter (\<lambda>u. u \<notin> set (map fst idxB)) (map fst idxA)"
  shows "\<exists>L. lookup_each idxA us = Inr L
     \<and> set L = {r. \<exists>u. last_with_url A u = Some r \<and> last_with_url B u = None}
     \<and> distinct (map url_key L)"
proof -
  let ?L = "map (\<lambda>u. the (map_of idxA u)) us"
  have keysA: "u \<in> set (map fst idxA) \<longleftrightarrow> last_with_url A u \<noteq> None" for u
    using ma by (metis domIff dom_map_of_conv_image_fst set_map)
  have keysB: "u \<in> set (map fst idxB) \<longleftrightarrow> last_with_url B u \<noteq> None" for u
    using mb by (metis domIff dom_map_of_conv_image_fst set_map)
  have "set us \<subseteq> fst ` set idxA" by (auto simp: us_def)
  then have l: "lookup_each idxA us = Inr ?L" by (rule lookup_each_present)
  have mem: "u \<in> set us \<longleftrightarrow> last_with_url A u \<noteq> None \<and> last_with_url B u = None" for u
    unfolding us_def using keysA [of u] keysB [of u] by auto
  have s: "set ?L = {r. \<exists>u. last_with_url A u = Some r \<and> last_with_url B u = None}"
  proof (intro set_eqI iffI)
    fix r assume "r \<in> set ?L"
    then obtain u where u: "u \<in> set us" and r: "r = the (map_of idxA u)" by auto
    from u mem have "last_with_url A u \<noteq> None" "last_with_url B u = None" by simp_all
    with r ma show "r \<in> {r. \<exists>u. last_with_url A u = Some r \<and> last_with_url B u = None}"
      by auto
  next
    fix r assume "r \<in> {r. \<exists>u. last_with_url A u = Some r \<and> last_with_url B u = None}"
    then obtain u where a: "last_with_url A u = Some r" and b: "last_with_url B u = None" by blast
    with mem have "u \<in> set us" by simp
    moreover from a ma have "the (map_of idxA u) = r" by simp
    ultimately show "r \<in> set ?L" by force
  qed
  have "url_key (the (map_of idxA u)) = Some u" if "u \<in> set us" for u
  proof -
    from that mem obtain r where "last_with_url A u = Some r" by auto
    with ma show ?thesis by (simp add: last_with_url_key)
  qed
  then have k: "map url_key ?L = map Some us" by simp
  have "distinct us" using da by (simp add: us_def)
  then have "distinct (map Some us)" by (simp add: distinct_map)
  then have "distinct (map url_key ?L)" by (simp only: k)
  with l s show ?thesis by blast
qed

lemma index_by_url_empty:
  assumes "urls_hashable items"
  shows "\<exists>idx'. index_by_url items [] = Inr idx' \<and> distinct (map fst idx')
     \<and> (\<forall>u. map_of idx' u = last_with_url items u)"
proof -
  have d: "distinct (map fst ([] :: (pyval \<times> pydict) list))" by simp
  from index_by_url_spec [OF assms d] obtain idx' where
    i: "index_by_url items [] = Inr idx'" and d': "distinct (map fst idx')"
    and m: "\<forall>u. map_of idx' u =
            (case last_with_url items u of Some r \<Rightarrow> Some r | None \<Rightarrow> map_of [] u)"
    by blast
  have "map_of idx' u = last_with_url items u" for u
    using m [rule_format, of u] by (cases "last_with_url items u") simp_all
  with i d' show ?thesis by blast
qed

text \<open>
  C1. On two record lists whose url values can be dictionary keys, \<open>compute_delta\<close>
  returns a result whose \<open>current\<close> is the current list unchanged, whose \<open>new\<close> holds
  exactly the records indexed in the current list under a key the previous index
  lacks, and whose \<open>removed\<close> holds exactly the records indexed in the previous list
  under a key the current index lacks, one record for each key. The record indexed
  under a key is the last one of the list with that key: the later occurrence wins.
\<close>

theorem compute_delta_correct:
  assumes "urls_hashable previous" and "urls_hashable current_list"
  shows "\<exists>d. compute_delta previous current_list = Inr d
     \<and> current d = current_list
     \<and> set (new d) = {r. \<exists>u. last_with_url current_list u = Some r
                             \<and> last_with_url previous u = None}
     \<and> set (removed d) = {r. \<exists>u. last_with_url previous u = Some r
                             \<and> last_with_url current_list u = None}
     \<and> distinct (map url_key (new d)) \<and> distinct (map url_key (removed d))"
proof -
  from index_by_url_empty [OF assms(1)] obtain p where
    p: "index_by_url previous [] = Inr p" and dp: "distinct (map fst p)"
    and mp: "\<forall>u. map_of p u = last_with_url previous u"
    by blast
  from index_by_url_empty [OF assms(2)] obtain c where
    c: "index_by_url current_list [] = Inr c" and dc: "distinct (map fst c)"
    and mc: "\<forall>u. map_of c u = last_with_url current_list u"
    by blast
  from delta_side [OF dc mc mp] obtain N where
    n: "lookup_each c (filter (\<lambda>u. u \<notin> set (map fst p)) (map fst c)) = Inr N"
    and sn: "set N = {r. \<exists>u. last_with_url current_list u = Some r
                             \<and> last_with_url previous u = None}"
    and dn: "distinct (map url_key N)"
    by blast
  from delta_side [OF dp mp mc] obtain R where
    r: "lookup_each p (filter (\<lambda>u. u \<notin> set (map fst c)) (map fst p)) = Inr R"
    and sr: "set R = {r. \<exists>u. last_with_url previous u = Some r
                             \<and> last_with_url current_list u = None}"
    and dr: "distinct (map url_key R)"
    by blast
  have "compute_delta previous current_list
          = Inr \<lparr>new = N, removed = R, current = current_list\<rparr>"
    using p c n r by (simp add: compute_delta_def)
  with sn sr dn dr show ?thesis by simp
qed

lemma delta_example:
  "compute_delta [rec_a, rec_b] [rec_b, rec_c, rec_c2]
     = Inr \<lparr>new = [rec_c2], removed = [rec_a], current = [rec_b, rec_c, rec_c2]\<rparr>"
  by (simp add: compute_delta_def rec_a_def rec_b_def rec_c_def rec_c2_def dict_get_def ascii_def Let_def)

lemma hash_example: "urls_hashable [rec_a, rec_b]" "urls_hashable [rec_b, rec_c, rec_c2]"
  by (simp_all add: urls_hashable_def url_key_def rec_a_def rec_b_def rec_c_def rec_c2_def dict_get_def ascii_def)

theorem compute_delta_correct_witness:
  "urls_hashable [rec_a, rec_b] \<and> urls_hashable [rec_b, rec_c, rec_c2]
   \<and> (\<exists>d. compute_delta [rec_a, rec_b] [rec_b, rec_c, rec_c2] = Inr d
        \<and> d = \<lparr>new = [rec_c2], removed = [rec_a], current = [rec_b, rec_c, rec_c2]\<rparr>
        \<and> set (new d) = {r. \<exists>u. last_with_url [rec_b, rec_c, rec_c2] u = Some r
                               \<and> last_with_url [rec_a, rec_b] u = None})"
  using compute_delta_correct [OF hash_example] hash_example delta_example
  by auto
section \<open>Summary extractor\<close>

lemma parse_cards_acc: "parse_cards cs acc = acc @ List.map_filter parse_card cs"
  by (induction cs arbitrary: acc) (auto simp: List.map_filter_simps split: option.splits)

lemma select_cards_find:
  "select_cards soup sels =
     (case find (\<lambda>sel. soup sel \<noteq> []) sels of None \<Rightarrow> [] | Some sel \<Rightarrow> soup sel)"
  by (induction sels) (auto simp: Let_def)

text \<open>
  C6. The selectors are tried in their fixed order; the cards are exactly those of the
  first selector that selects at least one element, each turned into a summary or
  dropped; the sets of different selectors are never merged. When no selector selects
  anything the result is empty and a warning is logged: nothing is raised.
\<close>

theorem first_selector_wins:
  "parse_search_results e html w =
     (case find (\<lambda>sel. search_soup e html sel \<noteq> []) card_selectors of
        None \<Rightarrow> ([], log_warning No_cards_found w)
      | Some sel \<Rightarrow> (List.map_filter parse_card (search_soup e html sel), w))"
proof (cases "find (\<lambda>sel. search_soup e html sel \<noteq> []) card_selectors")
  case None
  then show ?thesis
    by (simp add: parse_search_results_def select_cards_find)
next
  case (Some sel)
  then have "search_soup e html sel \<noteq> []" by (auto simp: find_Some_iff)
  with Some show ?thesis
    by (simp add: parse_search_results_def select_cards_find parse_cards_acc)
qed

lemma parse_card_ok: "parse_card card_ok = Some \<lparr>title = ascii ''Property listing'',
   url = ascii ''https://www.seloger.com/annonces/2.htm'', location = None, price = None, photos = []\<rparr>"
  by (simp add: parse_card_def card_ok_def card0_def find_string_def site_origin_def ascii_def)

lemma parse_card_neg: "parse_card card_neg = Some \<lparr>title = ascii ''Property listing'',
   url = ascii ''https://www.seloger.com/a'', location = None, price = Some (- 5), photos = []\<rparr>"
  by (simp add: parse_card_def card_neg_def card0_def find_string_def site_origin_def ascii_def
      price_re_at_def is_digit_below is_digit_euro digit_value_below digit_or_space_def is_space_def
      extract_int_def py_int_def remove_char_def to_ascii_decimal_def
      ascii_space_def ascii_digit_def max_str_digits_def digits_to_int_def)

theorem first_selector_wins_witness:
  "map url (fst (parse_search_results env_two [] world0))
     = [ascii ''https://www.seloger.com/annonces/2.htm'']
   \<and> parse_search_results env0 [] world0 = ([], world0\<lparr>warnings := [No_cards_found]\<rparr>)"
  using first_selector_wins [of env_two "[]" world0] first_selector_wins [of env0 "[]" world0]
  by (simp add: env_two_def env0_def card_selectors_def List.map_filter_simps parse_card_ok
      log_warning_def world0_def)

lemma parse_card_None_iff: "parse_card c = None \<longleftrightarrow> falsy (link_el c)"
  by (auto simp: parse_card_def falsy_def Let_def site_origin_def ascii_def split: option.splits)

lemma parse_card_url:
  assumes "parse_card c = Some s"
  shows "\<exists>h. link_el c = Some h \<and> h \<noteq> []
           \<and> url s = (if take 1 h = ascii ''/'' then site_origin @ h else h)"
proof (cases "link_el c")
  case None
  with assms show ?thesis by (simp add: parse_card_def Let_def)
next
  case (Some h)
  let ?u = "if take 1 h = ascii ''/'' then site_origin @ h else h"
  show ?thesis
  proof (cases "h = []")
    case True
    with Some assms show ?thesis by (simp add: parse_card_def Let_def)
  next
    case False
    then have u: "?u \<noteq> []" by simp
    from Some False have "parse_card c = Some \<lparr>title = (case title_el c of
                      Some t \<Rightarrow> clean_text (Some t)
                    | None \<Rightarrow> ascii ''Property listing''), url = ?u,
        location = (case (case loc_attr_el c of Some t \<Rightarrow> Some t | None \<Rightarrow> loc_p_el c) of
                      Some t \<Rightarrow> Some (clean_text (Some t)) | None \<Rightarrow> None),
        price = (case find_string price_re_at (strings c) of
                      None \<Rightarrow> None
                    | Some t \<Rightarrow> if t \<noteq> [] then extract_int (Some t) else None),
        photos = add_photos (imgs c) []\<rparr>"
      unfolding parse_card_def Let_def using u by simp
    then have "url (the (parse_card c)) = ?u" by simp
    with assms have "url s = ?u" by simp
    with Some False show ?thesis by simp
  qed
qed

lemma origin_absolute: "is_absolute_url (site_origin @ h)"
  by (simp add: is_absolute_url_def site_origin_def ascii_def is_alpha_def scheme_char_def
      ascii_digit_def)

lemma parse_search_results_cards:
  "fst (parse_search_results e html w)
     = List.map_filter parse_card (select_cards (search_soup e html) card_selectors)"
  by (simp add: parse_search_results_def Let_def parse_cards_acc List.map_filter_simps)

lemma map_filter_mem:
  "s \<in> set (List.map_filter f xs) \<longleftrightarrow> (\<exists>x \<in> set xs. f x = Some s)"
  by (induction xs) (auto simp: List.map_filter_simps split: option.splits)

text \<open>
  C4, as the code has it. The summaries are the cards of the selected set, in document
  order, each kept unless it has no link or an empty one; so a card without link is
  dropped and its siblings are kept. The URL of a kept summary is never empty. It is
  the \<open>href\<close> of the card's first link as it stands, except that an \<open>href\<close> beginning with
  a slash has the site's origin put before it, and is absolute then.
\<close>

theorem retained_url_nonempty:
  "fst (parse_search_results e html w)
     = List.map_filter parse_card (select_cards (search_soup e html) card_selectors)
   \<and> (parse_card c = None \<longleftrightarrow> falsy (link_el c))
   \<and> (parse_card c = Some s \<longrightarrow>
        url s \<noteq> []
        \<and> (\<exists>h. link_el c = Some h \<and> h \<noteq> []
              \<and> url s = (if take 1 h = ascii ''/'' then site_origin @ h else h)
              \<and> (take 1 h = ascii ''/'' \<longrightarrow> is_absolute_url (url s))))"
proof (intro conjI impI)
  show "fst (parse_search_results e html w)
     = List.map_filter parse_card (select_cards (search_soup e html) card_selectors)"
    by (rule parse_search_results_cards)
  show "parse_card c = None \<longleftrightarrow> falsy (link_el c)" by (rule parse_card_None_iff)
next
  assume a: "parse_card c = Some s"
  from parse_card_url [OF a] obtain h where h: "link_el c = Some h" "h \<noteq> []"
    "url s = (if take 1 h = ascii ''/'' then site_origin @ h else h)" by blast
  then show "url s \<noteq> []" by (auto simp: site_origin_def ascii_def)
  from h show "\<exists>h. link_el c = Some h \<and> h \<noteq> []
              \<and> url s = (if take 1 h = ascii ''/'' then site_origin @ h else h)
              \<and> (take 1 h = ascii ''/'' \<longrightarrow> is_absolute_url (url s))"
    by (auto simp: origin_absolute)
qed

lemma parse_card_rel: "parse_card card_rel = Some \<lparr>title = ascii ''Property listing'',
   url = ascii ''annonces/1.htm'', location = None, price = None, photos = []\<rparr>"
  by (simp add: parse_card_def card_rel_def card0_def find_string_def site_origin_def ascii_def)

lemma parse_card_0: "parse_card card0 = None"
  by (simp add: parse_card_def card0_def find_string_def site_origin_def ascii_def)

lemma env_cards_result:
  "fst (parse_search_results env_cards [] world0) =
     [\<lparr>title = ascii ''Property listing'', url = ascii ''annonces/1.htm'', location = None,
        price = None, photos = []\<rparr>,
      \<lparr>title = ascii ''Property listing'',
        url = ascii ''https://www.seloger.com/annonces/2.htm'', location = None,
        price = None, photos = []\<rparr>,
      \<lparr>title = ascii ''Property listing'', url = ascii ''https://www.seloger.com/a'',
        location = None, price = Some (- 5), photos = []\<rparr>]"
  by (simp add: parse_search_results_cards env_cards_def env0_def card_selectors_def
      List.map_filter_simps parse_card_rel parse_card_0 parse_card_ok parse_card_neg)

text \<open>
  C4 as stated fails: a card whose link is \<open>annonces/1.htm\<close> is kept with that URL, which
  is not absolute.
\<close>

theorem relative_url_retained_counterexample:
  "map url (fst (parse_search_results env_cards [] world0))
     = [ascii ''annonces/1.htm'', ascii ''https://www.seloger.com/annonces/2.htm'',
        ascii ''https://www.seloger.com/a'']
   \<and> \<not> is_absolute_url (ascii ''annonces/1.htm'')"
  by (simp add: env_cards_result) (simp add: is_absolute_url_def ascii_def)

theorem retained_url_nonempty_witness:
  "parse_card card0 = None \<and> falsy (link_el card0)
   \<and> parse_card card_ok \<noteq> None
   \<and> link_el card_ok = Some (ascii ''/annonces/2.htm'')
   \<and> url (the (parse_card card_ok)) = site_origin @ ascii ''/annonces/2.htm''
   \<and> is_absolute_url (url (the (parse_card card_ok)))"
proof -
  obtain s where s: "parse_card card_ok = Some s" using parse_card_ok by blast
  have l: "link_el card_ok = Some (ascii ''/annonces/2.htm'')"
    by (simp add: card_ok_def card0_def)
  have t: "take 1 (ascii ''/annonces/2.htm'') = ascii ''/''" by (simp add: ascii_def)
  from retained_url_nonempty [of env_cards "[]" world0 card_ok s] s l t
  have "url s = site_origin @ ascii ''/annonces/2.htm''" "is_absolute_url (url s)"
    by auto
  moreover from retained_url_nonempty [of env_cards "[]" world0 card0 s]
  have "parse_card card0 = None \<longleftrightarrow> falsy (link_el card0)" by blast
  moreover have "falsy (link_el card0)" by (simp add: falsy_def card0_def)
  ultimately show ?thesis using s l by simp
qed

lemma not_digit_minus: "\<not> is_digit 45"
  by (simp add: is_digit_below)

lemma not_space_minus: "\<not> is_space 45"
  by (simp add: is_space_def)

lemma int_re_at_digit:
  "is_digit c \<Longrightarrow> int_re_at (c # cs) = Some (c # takeWhile digit_or_space cs)"
  using not_digit_minus by (cases "c = 45") simp_all

lemma takeWhile_all: "list_all P (takeWhile P xs)"
  by (induction xs) simp_all

lemma digit_ds: "is_digit c \<Longrightarrow> digit_or_space c"
  by (simp add: digit_or_space_def)

lemma unsigned_match:
  "\<not> minus_before_first_digit t \<Longrightarrow> re_search int_re_at t = Some g
     \<Longrightarrow> list_all digit_or_space g"
proof (induction t rule: minus_before_first_digit.induct)
  case 1
  then show ?case by simp
next
  case (2 c)
  show ?case
  proof (cases "is_digit c")
    case True
    then have "int_re_at [c] = Some [c]"
      by (simp add: int_re_at_digit del: int_re_at.simps)
    with 2(2) have "g = [c]" by (simp del: int_re_at.simps)
    with True show ?thesis by (simp add: digit_ds)
  next
    case False
    then have "int_re_at [c] = None" by simp
    with 2(2) show ?thesis by (simp del: int_re_at.simps add: int_re_at.simps(1))
  qed
next
  case (3 c d r)
  show ?case
  proof (cases "is_digit c")
    case True
    with 3(3) have "g = c # takeWhile digit_or_space (d # r)"
      by (simp add: int_re_at_digit del: int_re_at.simps)
    with True show ?thesis
      using takeWhile_all [of digit_or_space "d # r"] by (simp add: digit_ds del: takeWhile.simps)
  next
    case c: False
    show ?thesis
    proof (cases "is_digit d")
      case True
      with c 3(2) have "c \<noteq> 45" by simp
      with c have "int_re_at (c # d # r) = None" by simp
      with 3(3) True have "g = d # takeWhile digit_or_space r"
        by (simp add: int_re_at_digit del: int_re_at.simps)
      with True show ?thesis
        using takeWhile_all [of digit_or_space r] by (simp add: digit_ds)
    next
      case False
      with c have n: "int_re_at (c # d # r) = None" by simp
      from c False 3(2) have m: "\<not> minus_before_first_digit (d # r)" by simp
      from n 3(3) have "re_search int_re_at (d # r) = Some g"
        by (simp del: int_re_at.simps)
      with 3(1) [OF c False m] show ?thesis by simp
    qed
  qed
qed

lemma to_ascii_decimal_minus: "to_ascii_decimal c = 45 \<Longrightarrow> c = 45"
  by (auto simp: to_ascii_decimal_def split: if_splits option.splits)

lemma digits_to_int_nonneg: "0 \<le> digits_to_int ds"
proof -
  have "0 \<le> a \<Longrightarrow> 0 \<le> foldl (\<lambda>acc c. 10 * acc + int (c - 48)) a xs" for a :: int and xs
    by (induction xs arbitrary: a) simp_all
  then show ?thesis by (simp add: digits_to_int_def)
qed

lemma no_minus_head:
  "45 \<notin> set u \<Longrightarrow> (case u of [] \<Rightarrow> False | c # _ \<Rightarrow> c = (45::nat)) = False"
  by (cases u) auto

lemma py_int_nonneg:
  assumes "45 \<notin> set s" and "py_int s = Some n"
  shows "0 \<le> n"
proof -
  let ?t = "map to_ascii_decimal s"
  let ?u = "rev (dropWhile ascii_space (rev (dropWhile ascii_space ?t)))"
  have "45 \<notin> set ?t"
  proof
    assume "45 \<in> set ?t"
    then obtain x where x: "x \<in> set s" and "to_ascii_decimal x = 45" by auto
    then have "x = 45" by (simp add: to_ascii_decimal_minus)
    with x assms(1) show False by simp
  qed
  moreover have "set ?u \<subseteq> set ?t"
    by (metis set_dropWhileD set_rev subsetI)
  ultimately have "45 \<notin> set ?u" by blast
  then have "(case ?u of [] \<Rightarrow> False | c # _ \<Rightarrow> c = 45) = False"
    by (rule no_minus_head)
  with assms(2) show ?thesis
    by (auto simp: py_int_def Let_def digits_to_int_nonneg split: if_splits)
qed

lemma extract_int_nonneg:
  assumes "\<not> minus_before_first_digit t" and "extract_int (Some t) = Some n"
  shows "0 \<le> n"
proof -
  from assms(2) obtain g where g: "re_search int_re_at t = Some g"
    and p: "py_int (remove_char 160 (remove_char 32 g)) = Some n"
    by (auto simp: extract_int_def split: if_splits option.splits)
  from unsigned_match [OF assms(1) g] have "list_all digit_or_space g" .
  then have "45 \<notin> set g"
    using not_digit_minus not_space_minus by (auto simp: list_all_iff digit_or_space_def)
  then have "45 \<notin> set (remove_char 160 (remove_char 32 g))" by (simp add: remove_char_def)
  from py_int_nonneg [OF this p] show ?thesis .
qed

lemma if_None_SomeD: "(if b then None else Some r) = Some s \<Longrightarrow> \<not> b \<and> r = s"
  by (cases b) simp_all

lemma parse_card_price:
  assumes "parse_card c = Some s"
  shows "price s = (case find_string price_re_at (strings c) of
                      None \<Rightarrow> None
                    | Some t \<Rightarrow> if t \<noteq> [] then extract_int (Some t) else None)"
proof -
  from if_None_SomeD [OF assms [unfolded parse_card_def Let_def]]
  have "price s = price (the (parse_card c))"
    using assms by simp
  also have "\<dots> = (case find_string price_re_at (strings c) of
                      None \<Rightarrow> None
                    | Some t \<Rightarrow> if t \<noteq> [] then extract_int (Some t) else None)"
    using if_None_SomeD [OF assms [unfolded parse_card_def Let_def]] assms by auto
  finally show ?thesis .
qed

text \<open>
  C5, as the code has it. The price of a summary, when present, is the integer that
  \<open>extract_int\<close> reads from the first text node of its card with a digit run before a
  euro sign; it is not negative unless the first digit of that text has a minus sign
  directly before it.
\<close>

theorem summary_price_sign:
  assumes "s \<in> set (fst (parse_search_results e html w))" and "price s = Some n"
  shows "\<exists>c t. c \<in> set (select_cards (search_soup e html) card_selectors)
           \<and> parse_card c = Some s
           \<and> find_string price_re_at (strings c) = Some t
           \<and> extract_int (Some t) = Some n
           \<and> (\<not> minus_before_first_digit t \<longrightarrow> 0 \<le> n)"
proof -
  from assms(1) obtain c where c: "c \<in> set (select_cards (search_soup e html) card_selectors)"
    and p: "parse_card c = Some s"
    by (auto simp: parse_search_results_cards map_filter_mem)
  from parse_card_price [OF p] assms(2) obtain t where
    t: "find_string price_re_at (strings c) = Some t" and x: "extract_int (Some t) = Some n"
    by (auto split: option.splits if_splits)
  from x have "\<not> minus_before_first_digit t \<longrightarrow> 0 \<le> n"
    using extract_int_nonneg by blast
  with c p t x show ?thesis by blast
qed

text \<open>
  C5 as stated fails: a card whose price text is "-5 EUR" (with the euro sign) gives a
  summary with the price -5.
\<close>

theorem negative_price_counterexample:
  "map price (fst (parse_search_results env_cards [] world0)) = [None, None, Some (- 5)]"
  by (simp add: env_cards_result)

lemma find_price_neg:
  "find_string price_re_at (strings card_neg) = Some (ascii ''-5 '' @ [8364])"
  by (simp add: card_neg_def card0_def find_string_def ascii_def
      price_re_at_def is_digit_below is_digit_euro digit_or_space_def is_space_def)

theorem summary_price_sign_witness:
  "the (parse_card card_neg) \<in> set (fst (parse_search_results env_cards [] world0))
   \<and> price (the (parse_card card_neg)) = Some (- 5)
   \<and> find_string price_re_at (strings card_neg) = Some (ascii ''-5 '' @ [8364])
   \<and> extract_int (Some (ascii ''-5 '' @ [8364])) = Some (- 5)
   \<and> minus_before_first_digit (ascii ''-5 '' @ [8364])"
proof -
  let ?s = "the (parse_card card_neg)"
  have m: "?s \<in> set (fst (parse_search_results env_cards [] world0))"
    by (simp add: env_cards_result parse_card_neg)
  have p: "price ?s = Some (- 5)" by (simp add: parse_card_neg)
  from summary_price_sign [OF m p]
  have e: "\<exists>t. extract_int (Some t) = Some (- 5) \<and> minus_before_first_digit t"
    by auto
  have x: "extract_int (Some (ascii ''-5 '' @ [8364])) = Some (- 5)"
    using parse_card_price [of card_neg ?s] p by (simp add: parse_card_neg find_price_neg ascii_def)
  have "minus_before_first_digit (ascii ''-5 '' @ [8364])"
    by (simp add: ascii_def is_digit_below)
  with e m p x find_price_neg show ?thesis by simp
qed
section \<open>Detail extractor\<close>

lemma digit_value_gap1: "4250 \<le> c \<Longrightarrow> c < 6112 \<Longrightarrow> digit_value c = None"
  by (simp add: digit_value_def nd_starts_def)

lemma digit_value_gap2: "7258 \<le> c \<Longrightarrow> c < 42528 \<Longrightarrow> digit_value c = None"
  by (simp add: digit_value_def nd_starts_def)

lemma space_not_digit: "is_space c \<Longrightarrow> \<not> is_digit c"
proof -
  assume "is_space c"
  then consider "c \<le> 160" "c < 48 \<or> 57 < c" | "c = 5760" | "8192 \<le> c" "c \<le> 12288"
    unfolding is_space_def by linarith
  then have "digit_value c = None"
  proof cases
    case 1
    then show ?thesis by (auto simp: digit_value_below)
  next
    case 2
    then show ?thesis by (simp add: digit_value_gap1)
  next
    case 3
    then show ?thesis by (simp add: digit_value_gap2)
  qed
  then show ?thesis by (simp add: is_digit_def)
qed

lemma year4_at_Some:
  assumes "year4_at s = Some y"
  shows "is_year_token y \<and> (\<exists>post. s = y @ post) \<and> list_all (\<lambda>c. \<not> is_space c) y \<and> y \<noteq> []"
proof -
  from assms obtain a b c d r where s: "s = a # b # c # d # r"
    by (auto simp: year4_at_def split: list.splits)
  with assms have y: "y = [a, b, c, d]"
    and k: "((a = 49 \<and> b = 57) \<or> (a = 50 \<and> b = 48))" "is_digit c" "is_digit d"
    by (auto simp: year4_at_def split: if_splits)
  from k(1) have "\<not> is_space a" "\<not> is_space b" by (auto simp: is_space_def)
  moreover from k(2,3) have "\<not> is_space c" "\<not> is_space d"
    using space_not_digit by blast+
  ultimately show ?thesis using s y k by (simp add: is_year_token_def)
qed

lemma construction_en_at_Some:
  assumes "construction_en_at s = Some (g, r)"
  shows "s = g @ r \<and> g \<noteq> [] \<and> is_space (last g)"
proof -
  let ?r1 = "drop 12 s"
  let ?w1 = "takeWhile is_space ?r1"
  let ?r2 = "dropWhile is_space ?r1"
  let ?r3 = "drop 2 ?r2"
  let ?w2 = "takeWhile is_space ?r3"
  let ?r4 = "dropWhile is_space ?r3"
  from assms have a: "take 12 s = ascii ''Construction''" and b: "take 2 ?r2 = ascii ''en''"
    and c: "?w2 \<noteq> []" and g: "g = ascii ''Construction'' @ ?w1 @ ascii ''en'' @ ?w2"
    and r: "r = ?r4"
    by (auto simp: construction_en_at_def Let_def split: if_splits)
  have "s = take 12 s @ ?r1" by simp
  also have "?r1 = ?w1 @ ?r2" by simp
  also have "?r2 = take 2 ?r2 @ ?r3" by simp
  also have "?r3 = ?w2 @ ?r4" by simp
  finally have "s = g @ r" using a b g r by simp
  moreover from c have "last ?w2 \<in> set ?w2" by (rule last_in_set)
  then have "is_space (last ?w2)" by (meson set_takeWhileD)
  with c g have "is_space (last g)" by simp
  moreover from g c have "g \<noteq> []" by simp
  ultimately show ?thesis by blast
qed

lemma year_re_at_Some:
  assumes "year_re_at s = Some g"
  shows "\<exists>p y post. g = p @ y \<and> s = g @ post \<and> is_year_token y
           \<and> list_all (\<lambda>c. \<not> is_space c) y \<and> y \<noteq> [] \<and> (p = [] \<or> is_space (last p))"
proof (cases "construction_en_at s")
  case None
  with assms have "year4_at s = Some g" by (simp add: year_re_at_def)
  from year4_at_Some [OF this] show ?thesis by (metis append_Nil)
next
  case (Some gr)
  obtain p r where gr: "gr = (p, r)" by (cases gr)
  from construction_en_at_Some [OF Some [unfolded gr]]
  have s: "s = p @ r" and p: "p \<noteq> []" "is_space (last p)" by simp_all
  show ?thesis
  proof (cases "year4_at r")
    case None
    with assms Some gr have "year4_at s = Some g" by (simp add: year_re_at_def)
    from year4_at_Some [OF this] show ?thesis by (metis append_Nil)
  next
    case y: (Some y)
    with assms Some gr have g: "g = p @ y" by (simp add: year_re_at_def)
    from year4_at_Some [OF y] obtain post where "r = y @ post" "is_year_token y"
      "list_all (\<lambda>c. \<not> is_space c) y" "y \<noteq> []" by blast
    with s g p show ?thesis by auto
  qed
qed

lemma split_ws_from_word:
  "list_all (\<lambda>c. \<not> is_space c) y \<Longrightarrow>
   split_ws_from cur y = (if cur @ y = [] then [] else [cur @ y])"
  by (induction y arbitrary: cur) simp_all

lemma split_ws_from_last:
  assumes "y \<noteq> []" and "list_all (\<lambda>c. \<not> is_space c) y"
  shows "p = [] \<or> is_space (last p) \<Longrightarrow>
         \<exists>pre. split_ws_from cur (p @ y) = pre @ [if p = [] then cur @ y else y]"
proof (induction p arbitrary: cur)
  case Nil
  with assms show ?case by (simp add: split_ws_from_word)
next
  case (Cons c p)
  show ?case
  proof (cases "p = []")
    case True
    with Cons.prems have "is_space c" by simp
    with True assms show ?thesis by (simp add: split_ws_from_word)
  next
    case False
    with Cons.prems have l: "p = [] \<or> is_space (last p)" by simp
    from Cons.IH [OF l, of "[]"] False obtain pre1 where
      1: "split_ws_from [] (p @ y) = pre1 @ [y]" by auto
    from Cons.IH [OF l, of "cur @ [c]"] False obtain pre2 where
      2: "split_ws_from (cur @ [c]) (p @ y) = pre2 @ [y]" by auto
    show ?thesis
    proof (cases "is_space c")
      case True
      show ?thesis
      proof (cases "cur = []")
        case c: True
        with True 1 have "split_ws_from cur ((c # p) @ y) = pre1 @ [y]" by simp
        then show ?thesis by simp
      next
        case c: False
        with True 1 have "split_ws_from cur ((c # p) @ y) = (cur # pre1) @ [y]" by simp
        then show ?thesis by (intro exI [of _ "cur # pre1"]) simp
      qed
    next
      case False
      with 2 show ?thesis by simp
    qed
  qed
qed

lemma construction_date_of_match:
  assumes "re_search year_re_at html = Some g" and "g = p @ y" and "y \<noteq> []"
    and "list_all (\<lambda>c. \<not> is_space c) y" and "p = [] \<or> is_space (last p)"
  shows "construction_date_of html = Inr (Some y)"
proof -
  from split_ws_from_last [OF assms(3,4,5), of "[]"] obtain pre where
    "split_ws g = pre @ [y]" using assms(2) by (auto simp: split_ws_def split: if_splits)
  then have "split_ws g \<noteq> []" "last (split_ws g) = y" by simp_all
  with assms(1) show ?thesis
    by (cases "split_ws g") (simp_all add: construction_date_of_def)
qed

lemma re_search_Some:
  "re_search m s = Some g \<Longrightarrow>
   \<exists>k \<le> length s. m (drop k s) = Some g \<and> (\<forall>i<k. m (drop i s) = None)"
proof (induction s)
  case Nil
  then show ?case by simp
next
  case (Cons c cs)
  show ?case
  proof (cases "m (c # cs)")
    case None
    with Cons.prems have "re_search m cs = Some g" by simp
    from Cons.IH [OF this] obtain k where k: "k \<le> length cs" "m (drop k cs) = Some g"
      "\<forall>i<k. m (drop i cs) = None" by blast
    have "\<forall>i<Suc k. m (drop i (c # cs)) = None"
    proof (intro allI impI)
      fix i assume "i < Suc k"
      then show "m (drop i (c # cs)) = None"
        using None k(3) by (cases i) simp_all
    qed
    with k(1,2) show ?thesis by (intro exI [of _ "Suc k"]) simp
  next
    case (Some a)
    with Cons.prems have "m (drop 0 (c # cs)) = Some g" by simp
    then show ?thesis by (intro exI [of _ 0]) simp
  qed
qed



lemma parse_listing_page_Inr:
  assumes "construction_date_of html = Inr v"
  shows "parse_listing_page e html summary w =
     (Inr [(ascii ''title'', PStr (resolve_title (listing_soup e html) summary)),
           (ascii ''description'', PStr (resolve_description (listing_soup e html))),
           (ascii ''price'', opt_int (resolve_price (listing_soup e html) summary)),
           (ascii ''location'', opt_str (resolve_location (listing_soup e html) summary)),
           (ascii ''photos'',
              PList (add_photos (page_imgs (listing_soup e html)) (photos summary))),
           (ascii ''energy_info'', opt_str (resolve_energy_info (listing_soup e html))),
           (ascii ''construction_date'', opt_str v),
           (ascii ''publisher_name'', opt_str (fst (resolve_publisher (listing_soup e html)))),
           (ascii ''publisher_email'',
              opt_str (fst (snd (resolve_publisher (listing_soup e html))))),
           (ascii ''publisher_phone'',
              opt_str (snd (snd (resolve_publisher (listing_soup e html))))),
           (ascii ''nearby_transport'',
              PList (resolve_nearby_transport e (listing_soup e html))),
           (ascii ''url'', PStr (url summary)),
           (ascii ''scraped_at'', PStr (utcnow e (ticks w) @ ascii ''Z''))],
      w\<lparr>ticks := Suc (ticks w)\<rparr>)"
  by (simp add: parse_listing_page_def Let_def read_clock_def assms split: prod.splits)

lemma key_construction_date:
  "dict_get [(ascii ''title'', a), (ascii ''description'', b), (ascii ''price'', c),
     (ascii ''location'', d), (ascii ''photos'', f), (ascii ''energy_info'', g),
     (ascii ''construction_date'', v), (ascii ''publisher_name'', h),
     (ascii ''publisher_email'', i), (ascii ''publisher_phone'', j),
     (ascii ''nearby_transport'', k), (ascii ''url'', l), (ascii ''scraped_at'', m)]
     (ascii ''construction_date'') = v"
  by (simp add: dict_get_def ascii_def)







section \<open>Detail fields and their fallbacks\<close>

lemma construction_date_of_total: "\<exists>v. construction_date_of html = Inr v"
proof (cases "re_search year_re_at html")
  case None
  then show ?thesis by (simp add: construction_date_of_def)
next
  case (Some g)
  from re_search_Some [OF Some] obtain k where "year_re_at (drop k html) = Some g" by blast
  from year_re_at_Some [OF this] obtain p y where "g = p @ y" "y \<noteq> []"
    "list_all (\<lambda>c. \<not> is_space c) y" "p = [] \<or> is_space (last p)" by blast
  from construction_date_of_match [OF Some this] show ?thesis by blast
qed

lemma listing_keys:
  fixes a b c d f g v h i j k l m :: pyval
  defines "r \<equiv> [(ascii ''title'', a), (ascii ''description'', b), (ascii ''price'', c),
     (ascii ''location'', d), (ascii ''photos'', f), (ascii ''energy_info'', g),
     (ascii ''construction_date'', v), (ascii ''publisher_name'', h),
     (ascii ''publisher_email'', i), (ascii ''publisher_phone'', j),
     (ascii ''nearby_transport'', k), (ascii ''url'', l), (ascii ''scraped_at'', m)]"
  shows "dict_get r (ascii ''title'') = a"
    and "dict_get r (ascii ''description'') = b"
    and "dict_get r (ascii ''price'') = c"
    and "dict_get r (ascii ''location'') = d"
    and "dict_get r (ascii ''photos'') = f"
    and "dict_get r (ascii ''energy_info'') = g"
    and "dict_get r (ascii ''publisher_name'') = h"
    and "dict_get r (ascii ''publisher_email'') = i"
    and "dict_get r (ascii ''publisher_phone'') = j"
    and "dict_get r (ascii ''nearby_transport'') = k"
    and "dict_get r (ascii ''url'') = l"
    and "dict_get r (ascii ''scraped_at'') = m"
    and "map fst r = record_keys"
  by (simp_all add: r_def dict_get_def ascii_def record_keys_def)

lemma first_select_one_None:
  "first_select_one f sels = None \<longleftrightarrow> (\<forall>sel \<in> set sels. f sel = None)"
  by (induction sels) (auto split: option.splits)

lemma falsy_None: "falsy None"
  by (simp add: falsy_def)

lemma resolve_publisher_no_agency:
  assumes "\<forall>sel \<in> set agency_selectors. agency_select_one soup sel = None"
  shows "resolve_publisher soup =
     (None,
      (case mailto_el soup of None \<Rightarrow> None | Some h \<Rightarrow> Some (after_colon h)),
      (case tel_el soup of None \<Rightarrow> None | Some h \<Rightarrow> Some (after_colon h)))"
proof -
  from assms have "first_select_one (agency_select_one soup) agency_selectors = None"
    by (simp add: first_select_one_None)
  then show ?thesis
    by (simp add: resolve_publisher_def Let_def falsy_None split: option.splits)
qed

lemma re_search_Nil: "re_search price_re_at [] = None"
  by (simp add: price_re_at_def)

lemma find_string_nonempty: "find_string price_re_at xs = Some t \<Longrightarrow> t \<noteq> []"
proof
  assume "find_string price_re_at xs = Some t" and "t = []"
  then have "re_search price_re_at [] \<noteq> None"
    by (auto simp: find_string_def find_Some_iff)
  with re_search_Nil show False by simp
qed

lemma resolve_price_eq:
  "resolve_price soup summary =
     (case find_string price_re_at (page_strings soup) of
        None \<Rightarrow> price summary
      | Some t \<Rightarrow> extract_int (Some t))"
proof (cases "find_string price_re_at (page_strings soup)")
  case None
  then show ?thesis by (simp add: resolve_price_def falsy_def)
next
  case (Some t)
  with find_string_nonempty [OF Some] show ?thesis
    by (simp add: resolve_price_def falsy_def)
qed

lemma field_of_page:
  "construction_date_of html = Inr v \<Longrightarrow>
     field_of (parse_listing_page e html summary w) (ascii ''title'')
       = Inr (PStr (resolve_title (listing_soup e html) summary))
   \<and> field_of (parse_listing_page e html summary w) (ascii ''description'')
       = Inr (PStr (resolve_description (listing_soup e html)))
   \<and> field_of (parse_listing_page e html summary w) (ascii ''price'')
       = Inr (opt_int (resolve_price (listing_soup e html) summary))
   \<and> field_of (parse_listing_page e html summary w) (ascii ''publisher_name'')
       = Inr (opt_str (fst (resolve_publisher (listing_soup e html))))
   \<and> field_of (parse_listing_page e html summary w) (ascii ''publisher_email'')
       = Inr (opt_str (fst (snd (resolve_publisher (listing_soup e html)))))
   \<and> field_of (parse_listing_page e html summary w) (ascii ''publisher_phone'')
       = Inr (opt_str (snd (snd (resolve_publisher (listing_soup e html)))))"
  by (simp only: parse_listing_page_Inr field_of_def fst_conv sum.case listing_keys simp_thms)

text \<open>
  C7, as the code has it. The record always comes out, whatever the page lacks. Its
  title is the heading's cleaned text when there is a heading and that text is not
  empty, else the summary's title; its price is what \<open>extract_int\<close> reads from the first
  text node with the price pattern, else the summary's price; its description is
  resolved from the page. On a page without agency container the publisher's name is
  nothing, and phone and e-mail are the targets of the first \<open>tel:\<close> and \<open>mailto:\<close>
  links of the page, nothing only when the page has no such link.
\<close>

theorem detail_fields_fallback:
  "field_of (parse_listing_page e html summary w) (ascii ''title'')
     = Inr (PStr (case h1_el (listing_soup e html) of
                    None \<Rightarrow> title summary
                  | Some t \<Rightarrow> if clean_text (Some t) \<noteq> [] then clean_text (Some t)
                              else title summary))
   \<and> field_of (parse_listing_page e html summary w) (ascii ''price'')
     = Inr (opt_int (case find_string price_re_at (page_strings (listing_soup e html)) of
                       None \<Rightarrow> price summary
                     | Some t \<Rightarrow> extract_int (Some t)))
   \<and> field_of (parse_listing_page e html summary w) (ascii ''description'')
     = Inr (PStr (resolve_description (listing_soup e html)))
   \<and> ((\<forall>sel \<in> set agency_selectors. agency_select_one (listing_soup e html) sel = None) \<longrightarrow>
        field_of (parse_listing_page e html summary w) (ascii ''publisher_name'') = Inr PNone
      \<and> field_of (parse_listing_page e html summary w) (ascii ''publisher_phone'')
          = Inr (case tel_el (listing_soup e html) of
                   None \<Rightarrow> PNone
                 | Some h \<Rightarrow> PStr (after_colon h))
      \<and> field_of (parse_listing_page e html summary w) (ascii ''publisher_email'')
          = Inr (case mailto_el (listing_soup e html) of
                   None \<Rightarrow> PNone
                 | Some h \<Rightarrow> PStr (after_colon h)))"
proof -
  obtain v where v: "construction_date_of html = Inr v"
    using construction_date_of_total by blast
  note f = field_of_page [OF v, of e summary w]
  show ?thesis
  proof (intro conjI impI)
    show "field_of (parse_listing_page e html summary w) (ascii ''title'')
     = Inr (PStr (case h1_el (listing_soup e html) of
                    None \<Rightarrow> title summary
                  | Some t \<Rightarrow> if clean_text (Some t) \<noteq> [] then clean_text (Some t)
                              else title summary))"
      using f by (simp add: resolve_title_def)
    show "field_of (parse_listing_page e html summary w) (ascii ''price'')
     = Inr (opt_int (case find_string price_re_at (page_strings (listing_soup e html)) of
                       None \<Rightarrow> price summary
                     | Some t \<Rightarrow> extract_int (Some t)))"
      using f by (simp add: resolve_price_eq)
    show "field_of (parse_listing_page e html summary w) (ascii ''description'')
     = Inr (PStr (resolve_description (listing_soup e html)))"
      using f by simp
  next
    assume a: "\<forall>sel \<in> set agency_selectors. agency_select_one (listing_soup e html) sel = None"
    note p = resolve_publisher_no_agency [OF a]
    show "field_of (parse_listing_page e html summary w) (ascii ''publisher_name'') = Inr PNone"
      using f p by (simp add: opt_str_def)
    show "field_of (parse_listing_page e html summary w) (ascii ''publisher_phone'')
          = Inr (case tel_el (listing_soup e html) of
                   None \<Rightarrow> PNone
                 | Some h \<Rightarrow> PStr (after_colon h))"
      using f p by (simp add: opt_str_def split: option.splits)
    show "field_of (parse_listing_page e html summary w) (ascii ''publisher_email'')
          = Inr (case mailto_el (listing_soup e html) of
                   None \<Rightarrow> PNone
                 | Some h \<Rightarrow> PStr (after_colon h))"
      using f p by (simp add: opt_str_def split: option.splits)
  qed
qed

lemma no_agency_tel:
  "\<forall>sel \<in> set agency_selectors. agency_select_one (listing_soup env_tel []) sel = None"
  by (simp add: env_tel_def env0_def page_tel_def page0_def)

lemma tel_target: "after_colon (ascii ''tel:0102030405'') = ascii ''0102030405''"
  by (simp add: after_colon_def ascii_def)

text \<open>
  C7 as stated fails: a page without agency container but with a \<open>tel:\<close> link gives a
  record whose publisher phone is that link's target, not nothing.
\<close>

theorem publisher_phone_counterexample:
  "first_select_one (agency_select_one (listing_soup env_tel [])) agency_selectors = None
   \<and> field_of (parse_listing_page env_tel [] summary0 world0) (ascii ''publisher_phone'')
       = Inr (PStr (ascii ''0102030405''))"
proof -
  obtain v where v: "construction_date_of [] = Inr v"
    using construction_date_of_total by blast
  have "resolve_publisher (listing_soup env_tel [])
      = (None, None, Some (ascii ''0102030405''))"
    using resolve_publisher_no_agency [OF no_agency_tel]
    by (simp add: env_tel_def env0_def page_tel_def page0_def tel_target)
  with field_of_page [OF v, of env_tel summary0 world0] no_agency_tel show ?thesis
    by (simp add: opt_str_def first_select_one_None)
qed

theorem detail_fields_fallback_witness:
  "first_select_one (agency_select_one (listing_soup env_tel [])) agency_selectors = None
   \<and> field_of (parse_listing_page env_tel [] summary0 world0) (ascii ''title'')
       = Inr (PStr (ascii ''Studio''))
   \<and> field_of (parse_listing_page env_tel [] summary0 world0) (ascii ''price'')
       = Inr (PInt 900)
   \<and> field_of (parse_listing_page env_tel [] summary0 world0) (ascii ''publisher_name'')
       = Inr PNone
   \<and> field_of (parse_listing_page env_tel [] summary0 world0) (ascii ''publisher_email'')
       = Inr PNone"
  using detail_fields_fallback [of env_tel "[]" summary0 world0] no_agency_tel
  by (simp add: env_tel_def env0_def page_tel_def page0_def summary0_def find_string_def
      opt_int_def first_select_one_None)

section \<open>The records of a run\<close>

lemma summary_to_dict_eq:
  "summary_to_dict e s w =
     ([(ascii ''title'', PStr (title s)),
       (ascii ''description'', PStr []),
       (ascii ''price'', opt_int (price s)),
       (ascii ''location'', opt_str (location s)),
       (ascii ''photos'', PList (photos s)),
       (ascii ''energy_info'', PNone),
       (ascii ''construction_date'', PNone),
       (ascii ''publisher_name'', PNone),
       (ascii ''publisher_email'', PNone),
       (ascii ''publisher_phone'', PNone),
       (ascii ''nearby_transport'', PList []),
       (ascii ''url'', PStr (url s)),
       (ascii ''scraped_at'', PStr (utcnow e (ticks w) @ ascii ''Z''))],
      w\<lparr>ticks := Suc (ticks w)\<rparr>)"
  by (simp add: summary_to_dict_def read_clock_def)

lemma summary_to_dict_keys: "map fst (fst (summary_to_dict e s w)) = record_keys"
  by (simp only: summary_to_dict_eq fst_conv listing_keys)

lemma summary_to_dict_shallow:
  "shallow_record (fst (summary_to_dict e s w)) s (utcnow e (ticks w))"
  by (simp only: summary_to_dict_eq fst_conv shallow_record_def listing_keys key_construction_date
      simp_thms)

lemma summary_to_dict_ticks: "ticks (snd (summary_to_dict e s w)) = Suc (ticks w)"
  by (simp add: summary_to_dict_eq)

lemma summaries_to_dicts_length: "length (fst (summaries_to_dicts e ss w)) = length ss"
  by (induction ss arbitrary: w) (simp_all add: split_beta Let_def)

lemma summaries_to_dicts_keys:
  "r \<in> set (fst (summaries_to_dicts e ss w)) \<Longrightarrow> map fst r = record_keys"
proof (induction ss arbitrary: w)
  case Nil
  then show ?case by simp
next
  case (Cons s ss)
  then show ?case
    by (auto simp: split_beta Let_def summary_to_dict_keys)
qed

lemma summaries_to_dicts_nth:
  "i < length ss \<Longrightarrow>
     shallow_record (fst (summaries_to_dicts e ss w) ! i) (ss ! i) (utcnow e (ticks w + i))"
proof (induction ss arbitrary: w i)
  case Nil
  then show ?case by simp
next
  case (Cons s ss)
  show ?case
  proof (cases i)
    case 0
    then show ?thesis
      by (simp add: split_beta Let_def summary_to_dict_shallow)
  next
    case (Suc j)
    with Cons.prems have "j < length ss" by simp
    from Cons.IH [OF this, of "snd (summary_to_dict e s w)"] Suc show ?thesis
      by (simp add: split_beta Let_def summary_to_dict_ticks)
  qed
qed

lemma fetch_url_ticks: "ticks (snd (fetch_url e u w)) = ticks w"
  by (simp add: fetch_url_def)

lemma parse_search_results_ticks: "ticks (snd (parse_search_results e html w)) = ticks w"
  by (simp add: parse_search_results_def Let_def log_warning_def)

lemma parse_search_results_world:
  "fst (parse_search_results e html w) = fst (parse_search_results e html w0)"
  by (simp add: parse_search_results_cards)

lemma parse_listing_page_keys:
  "parse_listing_page e html s w = (Inr d, w') \<Longrightarrow> map fst d = record_keys"
proof -
  assume a: "parse_listing_page e html s w = (Inr d, w')"
  obtain v where v: "construction_date_of html = Inr v"
    using construction_date_of_total by blast
  from a show ?thesis
    unfolding parse_listing_page_Inr [OF v] by (auto simp only: listing_keys prod.inject sum.inject)
qed

lemma worker_keys: "worker e s w = (Some d, w1) \<Longrightarrow> map fst d = record_keys"
  by (auto simp: worker_def parse_listing_page_keys split: prod.splits sum.splits)

lemma collect_results_keys:
  "\<forall>r \<in> set acc. map fst r = record_keys \<Longrightarrow>
     r \<in> set (fst (collect_results e ss acc w)) \<Longrightarrow> map fst r = record_keys"
proof (induction ss arbitrary: acc w)
  case Nil
  then show ?case by simp
next
  case (Cons s ss)
  obtain o1 w1 where o: "worker e s w = (o1, w1)" by (cases "worker e s w")
  show ?case
  proof (cases o1)
    case None
    with Cons o show ?thesis by simp
  next
    case (Some d)
    with o have k: "map fst d = record_keys" by (simp add: worker_keys)
    show ?thesis
    proof (cases "d = []")
      case True
      with Cons o Some show ?thesis by simp
    next
      case False
      from Cons.prems(1) k have "\<forall>r \<in> set (acc @ [d]). map fst r = record_keys" by simp
      from Cons.IH [OF this, of w1] Cons.prems(2) o Some False show ?thesis by simp
    qed
  qed
qed


text \<open>
  C10. Every record \<open>scrape\<close> returns, in either mode, has exactly the thirteen keys
  (in the order of \<open>record_keys\<close>, each once). In shallow mode the records are those of
  the summaries read from the search page, cut to the limit, in their order; each has
  the summary's own fields and URL as they stand, empty text as description, no
  transport line, nothing in the fields only a listing page fills, and as time stamp
  the clock reading taken when the record is made: the i-th reading after the start
  for the i-th record.
\<close>

theorem scrape_record_shape:
  assumes "scrape e self start_url deep_scrape limit w = (Inr records, w')"
  shows "(\<forall>r \<in> set records. map fst r = record_keys)
     \<and> (\<not> deep_scrape \<longrightarrow>
          (\<exists>html summaries.
              http_get e (length (requests w)) start_url = Inr html
            \<and> summaries = (case limit of
                             None \<Rightarrow> fst (parse_search_results e html w)
                           | Some n \<Rightarrow> slice_to n (fst (parse_search_results e html w)))
            \<and> length records = length summaries
            \<and> (\<forall>i < length summaries.
                  shallow_record (records ! i) (summaries ! i) (utcnow e (ticks w + i)))))"
proof -
  obtain html where h: "http_get e (length (requests w)) start_url = Inr html"
    using assms by (cases "http_get e (length (requests w)) start_url")
      (simp_all add: scrape_def fetch_url_def)
  define w1 where "w1 = w\<lparr>requests := requests w @ [start_url]\<rparr>"
  define summaries where "summaries = (case limit of
       None \<Rightarrow> fst (parse_search_results e html w)
     | Some n \<Rightarrow> slice_to n (fst (parse_search_results e html w)))"
  define w2 where "w2 = snd (parse_search_results e html w1)"
  have s1: "(case limit of
       None \<Rightarrow> fst (parse_search_results e html w1)
     | Some n \<Rightarrow> slice_to n (fst (parse_search_results e html w1))) = summaries"
    unfolding summaries_def by (simp only: parse_search_results_world [of e html w1 w])
  have t2: "ticks w2 = ticks w"
    by (simp add: w2_def parse_search_results_ticks w1_def)
  have f: "fetch_url e start_url w = (Inr html, w1)"
    by (simp add: fetch_url_def h w1_def)
  have p: "snd (parse_search_results e html w1) = w2"
    by (simp add: w2_def)
  have "scrape e self start_url deep_scrape limit w =
          (if \<not> deep_scrape then (Inr (fst (summaries_to_dicts e summaries w2)),
                                      snd (summaries_to_dicts e summaries w2))
           else deep_scrape_summaries e self summaries w2)"
    unfolding scrape_def f
    by (simp add: split_beta Let_def s1 p)
  with assms have run: "(if \<not> deep_scrape then (Inr (fst (summaries_to_dicts e summaries w2)),
                                      snd (summaries_to_dicts e summaries w2))
              else deep_scrape_summaries e self summaries w2) = (Inr records, w')"
    by simp
  have keys: "\<forall>r \<in> set records. map fst r = record_keys"
  proof (cases deep_scrape)
    case False
    with run have "records = fst (summaries_to_dicts e summaries w2)" by simp
    then show ?thesis by (simp add: summaries_to_dicts_keys)
  next
    case True
    with run have "records = fst (collect_results e (completion_order e summaries) [] w2)"
      by (simp add: deep_scrape_summaries_def split_beta split: if_splits)
    then show ?thesis using collect_results_keys [of "[]"] by simp
  qed
  have shallow: "length records = length summaries
            \<and> (\<forall>i < length summaries.
                  shallow_record (records ! i) (summaries ! i) (utcnow e (ticks w + i)))"
    if "\<not> deep_scrape"
  proof -
    from run that have "records = fst (summaries_to_dicts e summaries w2)" by simp
    then show ?thesis
      using summaries_to_dicts_nth [of _ summaries e w2]
      by (simp add: summaries_to_dicts_length t2)
  qed
  from keys shallow h summaries_def show ?thesis by blast
qed

lemma env_cards_page: "http_get env_cards n u = Inr []"
  by (simp add: env_cards_def env0_def)

lemma env_cards_summaries:
  "fst (parse_search_results env_cards [] w) = fst (parse_search_results env_cards [] world0)"
  by (rule parse_search_results_world)

theorem scrape_record_shape_witness:
  "(\<exists>records w'. scrape env_cards scraper0 [] False None world0 = (Inr records, w')
        \<and> length records = 3
        \<and> list_all (\<lambda>r. map fst r = record_keys) records
        \<and> url_of (records ! 0) = PStr (ascii ''annonces/1.htm'')
        \<and> dict_get (records ! 0) (ascii ''description'') = PStr []
        \<and> dict_get (records ! 0) (ascii ''scraped_at'') = PStr (ascii ''2024-05-01T10:00:00Z''))
   \<and> (\<exists>records w'. scrape env_cards scraper0 [] True (Some 2) world0 = (Inr records, w')
        \<and> length records = 2
        \<and> list_all (\<lambda>r. map fst r = record_keys) records)"
proof -
  obtain r1 v1 where a: "scrape env_cards scraper0 [] False None world0 = (r1, v1)"
    by (cases "scrape env_cards scraper0 [] False None world0")
  have "\<exists>records. r1 = Inr records"
    using a by (auto simp: scrape_def fetch_url_def env_cards_page split_beta Let_def)
  then obtain rs1 where r1: "r1 = Inr rs1" by blast
  note t1 = scrape_record_shape [OF a [unfolded r1]]
  have u: "utcnow env_cards n = ascii ''2024-05-01T10:00:00''" for n
    by (simp add: env_cards_def env0_def)
  from t1 have p1: "length rs1 = 3 \<and> list_all (\<lambda>r. map fst r = record_keys) rs1
      \<and> url_of (rs1 ! 0) = PStr (ascii ''annonces/1.htm'')
      \<and> dict_get (rs1 ! 0) (ascii ''description'') = PStr []
      \<and> dict_get (rs1 ! 0) (ascii ''scraped_at'') = PStr (ascii ''2024-05-01T10:00:00Z'')"
    by (auto simp: env_cards_page env_cards_result list_all_iff shallow_record_def url_of_def u
        ascii_def)
  obtain r2 v2 where b: "scrape env_cards scraper0 [] True (Some 2) world0 = (r2, v2)"
    by (cases "scrape env_cards scraper0 [] True (Some 2) world0")
  have c: "completion_order env_cards = rev" by (simp add: env_cards_def env0_def)
  obtain v where v: "construction_date_of [] = Inr v"
    using construction_date_of_total by blast
  have "\<exists>records. r2 = Inr records \<and> length records = 2"
    using b
    by (auto simp: scrape_def fetch_url_def env_cards_page split_beta Let_def
        deep_scrape_summaries_def scraper0_def env_cards_summaries [of "world0\<lparr>requests := requests world0 @ [[]]\<rparr>"]
        env_cards_result slice_to_def c worker_def
        parse_listing_page_Inr [OF v])
  then obtain rs2 where r2: "r2 = Inr rs2" "length rs2 = 2" by blast
  from scrape_record_shape [OF b [unfolded r2(1)]]
  have "list_all (\<lambda>r. map fst r = record_keys) rs2" by (simp add: list_all_iff)
  with a b r1 r2 p1 show ?thesis by simp
qed

end
